theory Spec2Isabelle
  imports Main "HOL-Library.Sublist" "HOL-Library.AList"
begin

section \<open>The chat-completions client: wire types\<close>

text \<open>
  The development follows \<open>Client.complete\<close> of package \<open>completions\<close>. The
  declarations of the wire structs live in another file of the package; the records below
  carry exactly the fields that \<open>complete\<close> reads or writes, under the Go field names
  (prefixed, since record fields share one name space). A Go pointer that may be
  \<open>nil\<close> is an \<open>option\<close>, a slice is a list, Go's \<open>int\<close> is \<open>int\<close>.
\<close>

record FunctionCall =
  fn_Name :: string
  fn_Arguments :: string

record ToolCall =
  tc_ID :: string
  tc_Type :: string
  tc_Function :: FunctionCall

text \<open>A tool-call fragment of a streamed delta: the position index is a \<open>*int\<close>.\<close>

record ToolCallDelta =
  tcd_Index :: "int option"
  tcd_ID :: string
  tcd_Type :: string
  tcd_Function :: FunctionCall

record MessageContent =
  Text :: "string option"

record Message =
  msg_Role :: string
  msg_Content :: MessageContent
  msg_ToolCalls :: "ToolCall list"
  msg_Refusal :: "string option"

record Usage =
  PromptTokens :: int
  CompletionTokens :: int
  TotalTokens :: int

record Choice =
  ch_Index :: int
  ch_Message :: "Message option"
  ch_FinishReason :: "string option"

record Response =
  resp_ID :: string
  resp_Object :: string
  resp_Created :: int
  resp_Model :: string
  resp_SystemFingerprint :: string
  resp_Choices :: "Choice list"
  resp_Usage :: "Usage option"

record Delta =
  d_Role :: string
  d_Content :: "string option"
  d_ToolCalls :: "ToolCallDelta list"
  d_Refusal :: "string option"

record StreamChoice =
  sc_Index :: int
  sc_Delta :: "Delta option"
  sc_Message :: "Message option"
  sc_FinishReason :: "string option"

record StreamChunk =
  chunk_ID :: string
  chunk_Created :: int
  chunk_Model :: string
  chunk_SystemFingerprint :: string
  chunk_Choices :: "StreamChoice list"
  chunk_Usage :: "Usage option"

record StreamOptions =
  IncludeUsage :: bool

text \<open>
  The provider request: \<open>complete\<close> touches \<open>Stream\<close> and \<open>StreamOptions\<close> only;
  everything else the translator put there (model, messages, tools, ...) is
  \<open>req_Fields\<close>, each field with its name and encoded value.
\<close>

record Request =
  req_Stream :: bool
  req_StreamOptions :: "StreamOptions option"
  req_Fields :: "(string \<times> string) list"

subsection \<open>Progress notifications\<close>

record ProgressContent =
  pc_Type :: string
  pc_Text :: string

record ProgressToolCall =
  ptc_CallID :: string
  ptc_Name :: string
  ptc_Arguments :: string

record CompletionItem =
  item_ID :: string
  item_Partial :: bool
  item_HasMore :: bool
  item_Content :: "ProgressContent option"
  item_ToolCall :: "ProgressToolCall option"

record CompletionProgress =
  cp_Model :: string
  cp_Agent :: string
  cp_MessageID :: string
  cp_Item :: CompletionItem

text \<open>
  One call of \<open>progress.Send\<close>: the payload and the token argument as passed
  (\<open>None\<close> is Go's \<open>nil\<close>). The run's observable effect on the sink is the list of
  these calls in call order.
\<close>

record SendCall =
  send_Progress :: CompletionProgress
  send_Token :: "string option"

record CompletionOptions =
  ProgressToken :: "string option"

subsection \<open>Errors\<close>

datatype error =
    RequestError string
  | TransportError string
  | StatusError string string
  | PeekError string
  | ReadError string
  | DecodeError
  | ScanError string
  | Panic string

definition bindE :: "error + 'a \<Rightarrow> ('a \<Rightarrow> error + 'b) \<Rightarrow> error + 'b" where
  "bindE m f = (case m of Inl e \<Rightarrow> Inl e | Inr x \<Rightarrow> f x)"

fun foldE :: "('s \<Rightarrow> 'a \<Rightarrow> error + 's) \<Rightarrow> 'a list \<Rightarrow> 's \<Rightarrow> error + 's" where
  "foldE f [] s = Inr s"
| "foldE f (x # xs) s = (case f s x of Inl e \<Rightarrow> Inl e | Inr s' \<Rightarrow> foldE f xs s')"

section \<open>Library functions the method calls\<close>

subsection \<open>\<open>fmt.Sprintf\<close> with \<open>%d\<close>\<close>

fun digits :: "nat \<Rightarrow> string" where
  "digits n =
     (if n < 10 then [''0123456789'' ! n]
      else digits (n div 10) @ [''0123456789'' ! (n mod 10)])"

declare digits.simps [simp del]

definition itoa :: "int \<Rightarrow> string" where
  "itoa i = (if i < 0 then CHR ''-'' # digits (nat (- i)) else digits (nat i))"

text \<open>\<open>fmt.Sprintf("chatcmpl-%d", time.Now().UnixNano())\<close>, the clock reading a parameter.\<close>

definition synthID :: "int \<Rightarrow> string" where
  "synthID now = ''chatcmpl-'' @ itoa now"

subsection \<open>\<open>strings.TrimSpace\<close>\<close>

text \<open>
  Go strings are byte sequences holding UTF-8, and \<open>TrimSpace\<close> removes the runes of
  \<open>unicode.IsSpace\<close> from both ends, the left end first. \<open>space_runes\<close> lists their
  UTF-8 encodings: the six ASCII ones, U+0085, U+00A0, U+1680, U+2000 to U+200A, U+2028,
  U+2029, U+202F, U+205F and U+3000. A byte sequence that is no valid encoding decodes to
  the replacement rune, which is no space, so matching the encodings bytewise is
  what decoding does.
\<close>

definition space_runes :: "string list" where
  "space_runes =
     [[CHR 0x09], [CHR 0x0A], [CHR 0x0B], [CHR 0x0C], [CHR 0x0D], [CHR 0x20],
      [CHR 0xC2, CHR 0x85], [CHR 0xC2, CHR 0xA0], [CHR 0xE1, CHR 0x9A, CHR 0x80],
      [CHR 0xE2, CHR 0x80, CHR 0x80], [CHR 0xE2, CHR 0x80, CHR 0x81],
      [CHR 0xE2, CHR 0x80, CHR 0x82], [CHR 0xE2, CHR 0x80, CHR 0x83],
      [CHR 0xE2, CHR 0x80, CHR 0x84], [CHR 0xE2, CHR 0x80, CHR 0x85],
      [CHR 0xE2, CHR 0x80, CHR 0x86], [CHR 0xE2, CHR 0x80, CHR 0x87],
      [CHR 0xE2, CHR 0x80, CHR 0x88], [CHR 0xE2, CHR 0x80, CHR 0x89],
      [CHR 0xE2, CHR 0x80, CHR 0x8A], [CHR 0xE2, CHR 0x80, CHR 0xA8],
      [CHR 0xE2, CHR 0x80, CHR 0xA9], [CHR 0xE2, CHR 0x80, CHR 0xAF],
      [CHR 0xE2, CHR 0x81, CHR 0x9F], [CHR 0xE3, CHR 0x80, CHR 0x80]]"

function strip_runes :: "string list \<Rightarrow> string \<Rightarrow> string" where
  "strip_runes rs s =
     (case find (\<lambda>r. r \<noteq> [] \<and> prefix r s) rs of
        None \<Rightarrow> s
      | Some r \<Rightarrow> strip_runes rs (drop (length r) s))"
  by pat_completeness auto
termination
proof (relation "measure (\<lambda>(rs, s). length s)")
  show "wf (measure (\<lambda>(rs, s). length s))" by simp
next
  fix rs :: "string list" and s r :: string
  assume "find (\<lambda>r. r \<noteq> [] \<and> prefix r s) rs = Some r"
  then have "r \<noteq> []" and "prefix r s"
    by (auto simp: find_Some_iff)
  then have "0 < length r" and "length r \<le> length s"
    by (auto simp: prefix_def)
  then show "((rs, drop (length r) s), (rs, s)) \<in> measure (\<lambda>(rs, s). length s)"
    by (cases r) auto
qed

declare strip_runes.simps [simp del]

definition TrimSpace :: "string \<Rightarrow> string" where
  "TrimSpace s = rev (strip_runes (map rev space_runes) (rev (strip_runes space_runes s)))"

subsection \<open>\<open>bufio.Reader\<close> and \<open>bufio.Scanner\<close> over the response body\<close>

text \<open>
  The body of the HTTP response: the bytes the transport delivers and, when the transport
  breaks after them, its error (\<open>None\<close> is a clean end of stream).
\<close>

record Body =
  body_bytes :: string
  body_err :: "string option"

datatype io_error = EOF | IOError string

text \<open>
  A \<open>bufio.Reader\<close> on the body: the bytes it has read ahead and not yet handed out,
  the bytes still with the transport, and the transport's error after them.
\<close>

record Reader =
  rd_buffered :: string
  rd_rest :: string
  rd_err :: "string option"

definition NewReader :: "Body \<Rightarrow> Reader" where
  "NewReader b = \<lparr>rd_buffered = [], rd_rest = body_bytes b, rd_err = body_err b\<rparr>"

text \<open>
  \<open>Peek(n)\<close> reads ahead until \<open>n\<close> bytes are buffered or the transport has no more,
  and returns the first \<open>n\<close> buffered bytes without advancing the reader; with fewer than
  \<open>n\<close> it returns what there is together with the reason. (How far it reads ahead
  beyond \<open>n\<close> cannot be observed; the model reads exactly what is needed.)
\<close>

definition Peek :: "nat \<Rightarrow> Reader \<Rightarrow> string \<times> io_error option \<times> Reader" where
  "Peek n rd =
     (let need = n - length (rd_buffered rd);
          buf = rd_buffered rd @ take need (rd_rest rd);
          rd' = rd\<lparr>rd_buffered := buf, rd_rest := drop need (rd_rest rd)\<rparr>
      in (take n buf,
          (if length buf < n then Some (case rd_err rd of None \<Rightarrow> EOF | Some e \<Rightarrow> IOError e)
           else None),
          rd'))"

text \<open>\<open>io.ReadAll(reader)\<close>: what is buffered, then the rest, and the transport's error.\<close>

definition ReadAll :: "Reader \<Rightarrow> string \<times> string option" where
  "ReadAll rd = (rd_buffered rd @ rd_rest rd, rd_err rd)"

text \<open>
  \<open>bufio.ScanLines\<close>: a line ends at a newline; a last line without one is a token when
  it is not empty; one trailing carriage return is dropped.
\<close>

fun split_lines :: "string \<Rightarrow> string \<Rightarrow> string list" where
  "split_lines cur [] = (if cur = [] then [] else [rev cur])"
| "split_lines cur (c # cs) =
     (if c = CHR 0x0A then rev cur # split_lines [] cs else split_lines (c # cur) cs)"

definition dropCR :: "string \<Rightarrow> string" where
  "dropCR l = (if l \<noteq> [] \<and> last l = CHR 0x0D then butlast l else l)"

definition MaxScanTokenSize :: nat where
  "MaxScanTokenSize = 64 * 1024"

text \<open>
  The scanner's buffer holds at most \<open>MaxScanTokenSize\<close> bytes: a line that does not fit
  ends the scan with \<open>ErrTooLong\<close>, after the lines before it. A transport error is met
  by the \<open>Scan\<close> call that needs bytes past the last one delivered, so only once
  every line has been handed out. The result is the lines that \<open>Scan\<close> yields one by
  one, and the error that \<open>Err()\<close> reports once \<open>Scan\<close> has returned false.
\<close>

fun scan_tokens :: "string list \<Rightarrow> string option \<Rightarrow> string list \<times> string option" where
  "scan_tokens [] rerr = ([], rerr)"
| "scan_tokens (l # ls) rerr =
     (if MaxScanTokenSize \<le> length l then ([], Some ''bufio.Scanner: token too long'')
      else (case scan_tokens ls rerr of (ts, e) \<Rightarrow> (dropCR l # ts, e)))"

definition Scanner :: "Reader \<Rightarrow> string list \<times> string option" where
  "Scanner rd = scan_tokens (split_lines [] (rd_buffered rd @ rd_rest rd)) (rd_err rd)"

section \<open>Finalization: the accumulator becomes a slice\<close>

text \<open>
  The Go map \<open>toolCalls\<close> is an association list with distinct keys, in order of first
  sighting; \<open>len(toolCalls)\<close> is its length. The conversion loop writes
  \<open>slice[i] = *toolCall\<close> for every entry; Go panics on an index outside the slice.
  Go ranges over a map in an unspecified order; keys are distinct, so every order writes
  the same cells or panics alike (lemma \<open>convert_order\<close>).
\<close>

definition zeroToolCall :: ToolCall where
  "zeroToolCall = \<lparr>tc_ID = [], tc_Type = [], tc_Function = \<lparr>fn_Name = [], fn_Arguments = []\<rparr>\<rparr>"

fun convert_loop :: "(int \<times> ToolCall) list \<Rightarrow> ToolCall list \<Rightarrow> error + ToolCall list" where
  "convert_loop [] slice = Inr slice"
| "convert_loop ((i, toolCall) # rest) slice =
     (if 0 \<le> i \<and> i < int (length slice)
      then convert_loop rest (slice[nat i := toolCall])
      else Inl (Panic ''index out of range''))"

definition convert_toolCalls :: "(int \<times> ToolCall) list \<Rightarrow> error + ToolCall list" where
  "convert_toolCalls toolCalls =
     convert_loop toolCalls (replicate (length toolCalls) zeroToolCall)"

section \<open>The streaming path, one chunk at a time\<close>

text \<open>
  The local variables of the SSE loop, and in \<open>st_sends\<close> the calls of
  \<open>progress.Send\<close> made so far.
\<close>

record StreamState =
  st_resp :: Response
  st_initialized :: bool
  st_toolCalls :: "(int \<times> ToolCall) list"
  st_sends :: "SendCall list"

definition Send :: "CompletionOptions \<Rightarrow> CompletionProgress \<Rightarrow> SendCall list \<Rightarrow> SendCall list" where
  "Send opt p sends = sends @ [\<lparr>send_Progress = p, send_Token = ProgressToken opt\<rparr>]"

text \<open>\<open>resp.Choices[i]\<close>: Go panics when \<open>i\<close> is outside the slice.\<close>

definition choice_at :: "Response \<Rightarrow> int \<Rightarrow> error + Choice" where
  "choice_at r i =
     (if 0 \<le> i \<and> i < int (length (resp_Choices r)) then Inr (resp_Choices r ! nat i)
      else Inl (Panic ''index out of range''))"

definition set_choice :: "Response \<Rightarrow> int \<Rightarrow> Choice \<Rightarrow> Response" where
  "set_choice r i c = r\<lparr>resp_Choices := (resp_Choices r)[nat i := c]\<rparr>"

text \<open>Dereferencing \<open>Choice.Message\<close>: Go panics on \<open>nil\<close>.\<close>

definition message_of :: "Choice \<Rightarrow> error + Message" where
  "message_of c =
     (case ch_Message c of None \<Rightarrow> Inl (Panic ''nil pointer dereference'') | Some m \<Rightarrow> Inr m)"

definition content_progress ::
    "Response \<Rightarrow> string \<Rightarrow> string \<Rightarrow> bool \<Rightarrow> bool \<Rightarrow> string \<Rightarrow> CompletionProgress" where
  "content_progress resp agentName itemID partial hasMore txt =
     \<lparr>cp_Model = resp_Model resp, cp_Agent = agentName, cp_MessageID = resp_ID resp,
      cp_Item = \<lparr>item_ID = itemID, item_Partial = partial, item_HasMore = hasMore,
                 item_Content = Some \<lparr>pc_Type = ''text'', pc_Text = txt\<rparr>,
                 item_ToolCall = None\<rparr>\<rparr>"

definition toolcall_progress ::
    "Response \<Rightarrow> string \<Rightarrow> string \<Rightarrow> bool \<Rightarrow> bool \<Rightarrow> string \<Rightarrow> string \<Rightarrow> string
      \<Rightarrow> CompletionProgress" where
  "toolcall_progress resp agentName itemID partial hasMore callID name arguments =
     \<lparr>cp_Model = resp_Model resp, cp_Agent = agentName, cp_MessageID = resp_ID resp,
      cp_Item = \<lparr>item_ID = itemID, item_Partial = partial, item_HasMore = hasMore,
                 item_Content = None,
                 item_ToolCall = Some \<lparr>ptc_CallID = callID, ptc_Name = name,
                                        ptc_Arguments = arguments\<rparr>\<rparr>\<rparr>"

subsection \<open>The provider answers with a complete message in a chunk\<close>

definition send_message_toolcalls ::
    "CompletionOptions \<Rightarrow> string \<Rightarrow> Response \<Rightarrow> ToolCall list \<Rightarrow> SendCall list \<Rightarrow> SendCall list" where
  "send_message_toolcalls opt agentName r tcs sends =
     fold (\<lambda>(i, toolCall).
             Send opt (toolcall_progress r agentName (resp_ID r @ ''-t-'' @ itoa (int i)) False False
               (tc_ID toolCall) (fn_Name (tc_Function toolCall))
               (fn_Arguments (tc_Function toolCall))))
          (enumerate 0 tcs) sends"

definition quirk_message ::
    "CompletionOptions \<Rightarrow> string \<Rightarrow> int \<Rightarrow> StreamState \<Rightarrow> StreamChoice \<Rightarrow> Message
      \<Rightarrow> error + StreamState" where
  "quirk_message opt agentName now st choice m =
     bindE (choice_at (st_resp st) (sc_Index choice)) (\<lambda>c.
       let r1 = set_choice (st_resp st) (sc_Index choice) (c\<lparr>ch_Message := Some m\<rparr>);
           r2 = (if resp_ID r1 = [] then r1\<lparr>resp_ID := synthID now\<rparr> else r1);
           s1 = (case Text (msg_Content m) of
                   None \<Rightarrow> st_sends st
                 | Some txt \<Rightarrow>
                     if ProgressToken opt \<noteq> None
                     then Send opt (content_progress r2 agentName
                            (resp_ID r2 @ ''-'' @ itoa (sc_Index choice)) False False txt)
                            (st_sends st)
                     else st_sends st);
           s2 = send_message_toolcalls opt agentName r2 (msg_ToolCalls m) s1
       in Inr (st\<lparr>st_resp := r2, st_sends := s2\<rparr>))"

subsection \<open>An ordinary delta\<close>

definition handle_role :: "StreamState \<Rightarrow> int \<Rightarrow> Delta \<Rightarrow> error + StreamState" where
  "handle_role st idx delta =
     (if d_Role delta \<noteq> [] then
        bindE (choice_at (st_resp st) idx) (\<lambda>c.
          case ch_Message c of
            None \<Rightarrow> Inr st
          | Some m \<Rightarrow>
              Inr (st\<lparr>st_resp := set_choice (st_resp st) idx
                         (c\<lparr>ch_Message := Some (m\<lparr>msg_Role := d_Role delta\<rparr>)\<rparr>)\<rparr>))
      else Inr st)"

definition handle_content ::
    "CompletionOptions \<Rightarrow> string \<Rightarrow> bool \<Rightarrow> StreamState \<Rightarrow> int \<Rightarrow> Delta \<Rightarrow> error + StreamState" where
  "handle_content opt agentName isFinished st idx delta =
     (case d_Content delta of
        None \<Rightarrow> Inr st
      | Some frag \<Rightarrow>
          bindE (choice_at (st_resp st) idx) (\<lambda>c.
          bindE (message_of c) (\<lambda>m.
            let txt = (case Text (msg_Content m) of None \<Rightarrow> [] | Some t \<Rightarrow> t) @ frag;
                m' = m\<lparr>msg_Content := (msg_Content m)\<lparr>Text := Some txt\<rparr>\<rparr>;
                r' = set_choice (st_resp st) idx (c\<lparr>ch_Message := Some m'\<rparr>);
                sends' = (if resp_ID r' \<noteq> [] \<and> ProgressToken opt \<noteq> None
                          then Send opt (content_progress r' agentName
                                 (resp_ID r' @ ''-'' @ itoa idx) True (\<not> isFinished) frag)
                                 (st_sends st)
                          else st_sends st)
            in Inr (st\<lparr>st_resp := r', st_sends := sends'\<rparr>))))"

text \<open>
  One tool-call fragment: \<open>i\<close> is its place in the delta's list, used as the key when the
  fragment carries no index of its own.
\<close>

definition merge_entry :: "(int \<times> ToolCall) list \<Rightarrow> int \<Rightarrow> ToolCallDelta \<Rightarrow> ToolCall" where
  "merge_entry toolCalls index toolCall =
     (case map_of toolCalls index of
        None \<Rightarrow>
          \<lparr>tc_ID = tcd_ID toolCall, tc_Type = tcd_Type toolCall,
           tc_Function = \<lparr>fn_Name = fn_Name (tcd_Function toolCall),
                          fn_Arguments = fn_Arguments (tcd_Function toolCall)\<rparr>\<rparr>
      | Some e \<Rightarrow>
          e\<lparr>tc_Function := (tc_Function e)\<lparr>fn_Arguments :=
               fn_Arguments (tc_Function e) @ fn_Arguments (tcd_Function toolCall)\<rparr>\<rparr>)"

definition merge_fragment :: "(int \<times> ToolCall) list \<Rightarrow> int \<Rightarrow> ToolCallDelta \<Rightarrow> (int \<times> ToolCall) list" where
  "merge_fragment toolCalls index toolCall =
     AList.update index (merge_entry toolCalls index toolCall) toolCalls"

definition fragment_index :: "nat \<Rightarrow> ToolCallDelta \<Rightarrow> int" where
  "fragment_index i toolCall = (case tcd_Index toolCall of None \<Rightarrow> int i | Some k \<Rightarrow> k)"

definition tool_fragment ::
    "CompletionOptions \<Rightarrow> string \<Rightarrow> bool \<Rightarrow> nat \<times> ToolCallDelta \<Rightarrow> StreamState \<Rightarrow> StreamState" where
  "tool_fragment opt agentName isFinished p st =
     (case p of (i, toolCall) \<Rightarrow>
        let index = fragment_index i toolCall;
            e = merge_entry (st_toolCalls st) index toolCall;
            sends' =
              (if resp_ID (st_resp st) \<noteq> [] \<and> ProgressToken opt \<noteq> None
               then Send opt (toolcall_progress (st_resp st) agentName
                      (resp_ID (st_resp st) @ ''-t-'' @ itoa index) True (\<not> isFinished)
                      (tc_ID e) (fn_Name (tc_Function e))
                      (fn_Arguments (tcd_Function toolCall)))
                      (st_sends st)
               else st_sends st)
        in st\<lparr>st_toolCalls := merge_fragment (st_toolCalls st) index toolCall,
              st_sends := sends'\<rparr>)"

definition handle_toolcalls ::
    "CompletionOptions \<Rightarrow> string \<Rightarrow> bool \<Rightarrow> StreamState \<Rightarrow> Delta \<Rightarrow> StreamState" where
  "handle_toolcalls opt agentName isFinished st delta =
     fold (tool_fragment opt agentName isFinished) (enumerate 0 (d_ToolCalls delta)) st"

definition handle_finish :: "StreamState \<Rightarrow> int \<Rightarrow> string option \<Rightarrow> error + StreamState" where
  "handle_finish st idx fr =
     (case fr of
        None \<Rightarrow> Inr st
      | Some reason \<Rightarrow>
          bindE (choice_at (st_resp st) idx) (\<lambda>c.
            Inr (st\<lparr>st_resp := set_choice (st_resp st) idx (c\<lparr>ch_FinishReason := Some reason\<rparr>)\<rparr>)))"

definition handle_refusal :: "StreamState \<Rightarrow> int \<Rightarrow> Delta \<Rightarrow> error + StreamState" where
  "handle_refusal st idx delta =
     (case d_Refusal delta of
        None \<Rightarrow> Inr st
      | Some refusal \<Rightarrow>
          bindE (choice_at (st_resp st) idx) (\<lambda>c.
          bindE (message_of c) (\<lambda>m.
            Inr (st\<lparr>st_resp := set_choice (st_resp st) idx
                       (c\<lparr>ch_Message := Some (m\<lparr>msg_Refusal := Some refusal\<rparr>)\<rparr>)\<rparr>))))"

definition normal_delta ::
    "CompletionOptions \<Rightarrow> string \<Rightarrow> StreamState \<Rightarrow> StreamChoice \<Rightarrow> Delta \<Rightarrow> error + StreamState" where
  "normal_delta opt agentName st choice delta =
     (let isFinished = (sc_FinishReason choice \<noteq> None) in
      bindE (handle_role st (sc_Index choice) delta) (\<lambda>s1.
      bindE (handle_content opt agentName isFinished s1 (sc_Index choice) delta) (\<lambda>s2.
      bindE (handle_finish (handle_toolcalls opt agentName isFinished s2 delta)
               (sc_Index choice) (sc_FinishReason choice)) (\<lambda>s4.
      handle_refusal s4 (sc_Index choice) delta))))"

text \<open>The body of \<open>for _, choice := range chunk.Choices\<close>.\<close>

definition process_choice ::
    "CompletionOptions \<Rightarrow> string \<Rightarrow> int \<Rightarrow> StreamState \<Rightarrow> StreamChoice \<Rightarrow> error + StreamState" where
  "process_choice opt agentName now st choice =
     (if int (length (resp_Choices (st_resp st))) \<le> sc_Index choice then Inr st
      else (case sc_Delta choice of
              None \<Rightarrow>
                (case sc_Message choice of
                   None \<Rightarrow> Inr st
                 | Some m \<Rightarrow> quirk_message opt agentName now st choice m)
            | Some delta \<Rightarrow> normal_delta opt agentName st choice delta))"

definition init_response :: "StreamChunk \<Rightarrow> Response" where
  "init_response chunk =
     \<lparr>resp_ID = chunk_ID chunk, resp_Object = ''chat.completion'',
      resp_Created = chunk_Created chunk, resp_Model = chunk_Model chunk,
      resp_SystemFingerprint = chunk_SystemFingerprint chunk,
      resp_Choices =
        [\<lparr>ch_Index = 0,
          ch_Message = Some \<lparr>msg_Role = ''assistant'', msg_Content = \<lparr>Text = None\<rparr>,
                             msg_ToolCalls = [], msg_Refusal = None\<rparr>,
          ch_FinishReason = None\<rparr>],
      resp_Usage = None\<rparr>"

text \<open>
  The head of the loop body: the response shell on the first chunk, the identifier
  backfill, the usage summary.
\<close>

definition chunk_header :: "StreamState \<Rightarrow> StreamChunk \<Rightarrow> StreamState" where
  "chunk_header st chunk =
     (let s1 = (if \<not> st_initialized st
                then st\<lparr>st_resp := init_response chunk, st_initialized := True\<rparr> else st);
          s2 = (if resp_ID (st_resp s1) = [] \<and> chunk_ID chunk \<noteq> []
                then s1\<lparr>st_resp := (st_resp s1)\<lparr>resp_ID := chunk_ID chunk\<rparr>\<rparr> else s1)
      in (case chunk_Usage chunk of
            None \<Rightarrow> s2
          | Some u \<Rightarrow> s2\<lparr>st_resp := (st_resp s2)\<lparr>resp_Usage := Some u\<rparr>\<rparr>))"

text \<open>Everything the loop does with one decoded chunk.\<close>

definition process_chunk ::
    "CompletionOptions \<Rightarrow> string \<Rightarrow> int \<Rightarrow> StreamState \<Rightarrow> StreamChunk \<Rightarrow> error + StreamState" where
  "process_chunk opt agentName now st chunk =
     foldE (process_choice opt agentName now) (chunk_Choices chunk) (chunk_header st chunk)"

section \<open>The SSE loop and the two decode paths\<close>

text \<open>
  The scanner's lines, in order. \<open>unmarshal\<close> is \<open>json.Unmarshal\<close> into a fresh
  \<open>StreamChunk\<close> (\<open>None\<close> when it returns an error); \<open>errlog\<close> collects the payloads
  handed to \<open>log.Errorf\<close>. When the lines run out, \<open>lines.Err()\<close> (\<open>serr\<close>)
  decides. The sentinel leaves the loop at once: no further \<open>Scan\<close> call is made, so an
  error that the scanner would have met on a later line is never met, and
  \<open>lines.Err()\<close> is \<open>nil\<close>.
\<close>

fun stream_lines ::
    "(string \<Rightarrow> StreamChunk option) \<Rightarrow> CompletionOptions \<Rightarrow> string \<Rightarrow> int \<Rightarrow> string option
      \<Rightarrow> StreamState \<Rightarrow> string list \<Rightarrow> string list \<Rightarrow> error + StreamState \<times> string list" where
  "stream_lines unmarshal opt agentName now serr st errlog [] =
     (case serr of None \<Rightarrow> Inr (st, errlog) | Some e \<Rightarrow> Inl (ScanError e))"
| "stream_lines unmarshal opt agentName now serr st errlog (line # rest) =
     (if \<not> prefix ''data: '' line
      then stream_lines unmarshal opt agentName now serr st errlog rest
      else
        let data = TrimSpace (drop (length ''data: '') line) in
        if data = ''[DONE]'' then Inr (st, errlog)
        else (case unmarshal data of
                None \<Rightarrow> stream_lines unmarshal opt agentName now serr st (errlog @ [data]) rest
              | Some chunk \<Rightarrow>
                  (case process_chunk opt agentName now st chunk of
                     Inl e \<Rightarrow> Inl e
                   | Inr st' \<Rightarrow> stream_lines unmarshal opt agentName now serr st' errlog rest)))"

definition zeroResponse :: Response where
  "zeroResponse =
     \<lparr>resp_ID = [], resp_Object = [], resp_Created = 0, resp_Model = [],
      resp_SystemFingerprint = [], resp_Choices = [], resp_Usage = None\<rparr>"

definition initial_state :: StreamState where
  "initial_state =
     \<lparr>st_resp = zeroResponse, st_initialized = False, st_toolCalls = [], st_sends = []\<rparr>"

text \<open>\<open>if len(toolCalls) > 0 { ... }\<close> after the loop.\<close>

definition finalize :: "StreamState \<Rightarrow> error + Response" where
  "finalize st =
     (if 0 < length (st_toolCalls st) then
        bindE (choice_at (st_resp st) 0) (\<lambda>c.
        bindE (message_of c) (\<lambda>m.
        bindE (convert_toolCalls (st_toolCalls st)) (\<lambda>slice.
          Inr (set_choice (st_resp st) 0 (c\<lparr>ch_Message := Some (m\<lparr>msg_ToolCalls := slice\<rparr>)\<rparr>)))))
      else Inr (st_resp st))"

text \<open>What one call leaves behind: the response, the sink calls and the error log.\<close>

record Outcome =
  out_Response :: Response
  out_Sends :: "SendCall list"
  out_Errlog :: "string list"

definition handle_sse ::
    "(string \<Rightarrow> StreamChunk option) \<Rightarrow> CompletionOptions \<Rightarrow> string \<Rightarrow> int \<Rightarrow> Reader
      \<Rightarrow> error + Outcome" where
  "handle_sse unmarshal opt agentName now reader =
     (case Scanner reader of
        (lines, serr) \<Rightarrow>
          bindE (stream_lines unmarshal opt agentName now serr initial_state [] lines) (\<lambda>(st, errlog).
          bindE (finalize st) (\<lambda>resp.
            Inr \<lparr>out_Response = resp, out_Sends = st_sends st, out_Errlog = errlog\<rparr>)))"

definition handle_buffered ::
    "(string \<Rightarrow> Response option) \<Rightarrow> CompletionOptions \<Rightarrow> string \<Rightarrow> int \<Rightarrow> Reader
      \<Rightarrow> error + Outcome" where
  "handle_buffered unmarshal opt agentName now reader =
     (case ReadAll reader of
        (bodyBytes, Some e) \<Rightarrow> Inl (ReadError e)
      | (bodyBytes, None) \<Rightarrow>
          (case unmarshal bodyBytes of
             None \<Rightarrow> Inl DecodeError
           | Some resp0 \<Rightarrow>
               let resp = (if resp_ID resp0 = [] then resp0\<lparr>resp_ID := synthID now\<rparr> else resp0)
               in (case resp_Choices resp of
                     [] \<Rightarrow> Inr \<lparr>out_Response = resp, out_Sends = [], out_Errlog = []\<rparr>
                   | choice # _ \<Rightarrow>
                       if ProgressToken opt \<noteq> None then
                         let s1 = (case ch_Message choice of
                                     None \<Rightarrow> []
                                   | Some m \<Rightarrow>
                                       (case Text (msg_Content m) of
                                          None \<Rightarrow> []
                                        | Some txt \<Rightarrow>
                                            Send opt (content_progress resp agentName
                                              (resp_ID resp @ ''-content'') False False txt) []))
                         in bindE (message_of choice) (\<lambda>m.
                              Inr \<lparr>out_Response = resp,
                                   out_Sends = send_message_toolcalls opt agentName resp
                                                 (msg_ToolCalls m) s1,
                                   out_Errlog = []\<rparr>)
                       else Inr \<lparr>out_Response = resp, out_Sends = [], out_Errlog = []\<rparr>)))"

section \<open>The method \<open>complete\<close>\<close>

record Config =
  APIKey :: string
  BaseURL :: string
  Headers :: "(string \<times> string) list"

record HTTPRequest =
  hr_Method :: string
  hr_URL :: string
  hr_Header :: "(string \<times> string) list"
  hr_Body :: Request

record HTTPResponse =
  StatusCode :: int
  Status :: string
  Body :: Body

text \<open>
  What the method takes from outside itself: the environment variable
  \<open>AZURE_OPENAI_API_VERSION\<close>, the clock reading used for a synthetic identifier (one call
  needs at most one: an identifier once set is never cleared), whether
  \<open>http.NewRequestWithContext\<close> rejects the URL, \<open>http.DefaultClient.Do\<close>, and
  \<open>json.Unmarshal\<close> at its two target types. The request body is kept as the
  \<open>Request\<close> value that \<open>json.Marshal\<close> is given.
\<close>

record Env =
  env_apiVersion :: string
  env_now :: int
  env_newRequest :: "string \<Rightarrow> string option"
  env_Do :: "HTTPRequest \<Rightarrow> error + HTTPResponse"
  env_unmarshalResponse :: "string \<Rightarrow> Response option"
  env_unmarshalChunk :: "string \<Rightarrow> StreamChunk option"

definition build_request :: "Env \<Rightarrow> Config \<Rightarrow> Request \<Rightarrow> error + HTTPRequest" where
  "build_request env cfg req0 =
     (let req = req0\<lparr>req_Stream := True,
                     req_StreamOptions := Some \<lparr>IncludeUsage = True\<rparr>\<rparr>;
          url = BaseURL cfg @ ''/chat/completions'';
          url' = (if env_apiVersion env \<noteq> [] then url @ ''?api-version='' @ env_apiVersion env
                  else url)
      in case env_newRequest env url' of
           Some e \<Rightarrow> Inl (RequestError e)
         | None \<Rightarrow>
             Inr \<lparr>hr_Method = ''POST'', hr_URL = url', hr_Header = Headers cfg, hr_Body = req\<rparr>)"

definition isSSE :: "string \<Rightarrow> bool" where
  "isSSE firstBytes = prefix ''data: '' (TrimSpace firstBytes)"

definition handle_response ::
    "Env \<Rightarrow> CompletionOptions \<Rightarrow> string \<Rightarrow> HTTPResponse \<Rightarrow> error + Outcome" where
  "handle_response env opt agentName httpResp =
     (if StatusCode httpResp \<noteq> 200
      then Inl (StatusError (Status httpResp) (body_bytes (Body httpResp)))
      else (case Peek 20 (NewReader (Body httpResp)) of
              (firstBytes, Some (IOError e), reader) \<Rightarrow> Inl (PeekError e)
            | (firstBytes, _, reader) \<Rightarrow>
                if \<not> isSSE firstBytes
                then handle_buffered (env_unmarshalResponse env) opt agentName (env_now env) reader
                else handle_sse (env_unmarshalChunk env) opt agentName (env_now env) reader))"

definition complete ::
    "Env \<Rightarrow> Config \<Rightarrow> string \<Rightarrow> Request \<Rightarrow> CompletionOptions \<Rightarrow> error + Outcome" where
  "complete env cfg agentName req opt =
     bindE (build_request env cfg req) (\<lambda>httpReq.
     bindE (env_Do env httpReq) (\<lambda>httpResp.
       handle_response env opt agentName httpResp))"

section \<open>Observations on responses and accumulators\<close>

text \<open>
  Vocabulary for stating properties of the method; none of it is part of the method.
  First, the text accumulated for the first choice, the accumulator after all tool-call
  fragments of one delta, and what a handler leaves alone.
\<close>

definition accumulated_text :: "Response \<Rightarrow> string option" where
  "accumulated_text r =
     (case resp_Choices r of
        [] \<Rightarrow> None
      | c # _ \<Rightarrow> (case ch_Message c of None \<Rightarrow> None | Some m \<Rightarrow> Text (msg_Content m)))"

definition merge_all :: "(int \<times> ToolCall) list \<Rightarrow> ToolCallDelta list \<Rightarrow> (int \<times> ToolCall) list" where
  "merge_all acc fs =
     fold (\<lambda>(i, f) acc. merge_fragment acc (fragment_index i f) f) (enumerate 0 fs) acc"

definition untouched :: "StreamState \<Rightarrow> StreamState \<Rightarrow> bool" where
  "untouched st st' \<longleftrightarrow>
     resp_ID (st_resp st') = resp_ID (st_resp st) \<and>
     resp_Model (st_resp st') = resp_Model (st_resp st) \<and>
     st_toolCalls st' = st_toolCalls st \<and> st_sends st' = st_sends st \<and>
     st_initialized st' = st_initialized st \<and>
     accumulated_text (st_resp st') = accumulated_text (st_resp st)"

text \<open>
  Chunks of the two plain kinds: one choice with index 0 whose delta carries a content
  fragment and no tool call, or exactly one tool-call fragment. \<open>fragment_event\<close> is the
  partial event for a content fragment of choice 0, spelled out; \<open>header_ID\<close> is the
  response identifier once the head of the loop body has seen the chunk.
\<close>

definition content_chunk :: "StreamChunk \<Rightarrow> string \<Rightarrow> string option \<Rightarrow> bool" where
  "content_chunk c f fr \<longleftrightarrow>
     (case chunk_Choices c of
        [ch] \<Rightarrow>
          sc_Index ch = 0 \<and> sc_FinishReason ch = fr \<and>
          (case sc_Delta ch of
             None \<Rightarrow> False
           | Some dl \<Rightarrow> d_Content dl = Some f \<and> d_ToolCalls dl = [])
      | _ \<Rightarrow> False)"

definition tool_chunk :: "StreamChunk \<Rightarrow> ToolCallDelta \<Rightarrow> bool" where
  "tool_chunk c f \<longleftrightarrow>
     (case chunk_Choices c of
        [ch] \<Rightarrow>
          sc_Index ch = 0 \<and>
          (case sc_Delta ch of None \<Rightarrow> False | Some dl \<Rightarrow> d_ToolCalls dl = [f])
      | _ \<Rightarrow> False)"

definition fragment_event ::
    "CompletionOptions \<Rightarrow> string \<Rightarrow> string \<Rightarrow> string \<Rightarrow> string \<Rightarrow> string option \<Rightarrow> SendCall" where
  "fragment_event opt agentName model messageID f fr =
     \<lparr>send_Progress =
        \<lparr>cp_Model = model, cp_Agent = agentName, cp_MessageID = messageID,
         cp_Item = \<lparr>item_ID = messageID @ ''-0'', item_Partial = True,
                    item_HasMore = (fr = None),
                    item_Content = Some \<lparr>pc_Type = ''text'', pc_Text = f\<rparr>,
                    item_ToolCall = None\<rparr>\<rparr>,
      send_Token = ProgressToken opt\<rparr>"

definition header_ID :: "StreamState \<Rightarrow> StreamChunk \<Rightarrow> string" where
  "header_ID st c =
     (if st_initialized st \<and> resp_ID (st_resp st) \<noteq> [] then resp_ID (st_resp st)
      else chunk_ID c)"

text \<open>
  The tool call that a first fragment and one later fragment for the same index add up to.
\<close>

definition merged_call :: "ToolCallDelta \<Rightarrow> ToolCallDelta \<Rightarrow> ToolCall" where
  "merged_call first later =
     \<lparr>tc_ID = tcd_ID first, tc_Type = tcd_Type first,
      tc_Function = \<lparr>fn_Name = fn_Name (tcd_Function first),
                     fn_Arguments = fn_Arguments (tcd_Function first) @
                                    fn_Arguments (tcd_Function later)\<rparr>\<rparr>"







section \<open>Kinds of lines\<close>

text \<open>
  What the loop makes of a line, as predicates: the payload of a \<open>data: \<close> line is
  what follows the prefix, trimmed; the line is the sentinel, or its payload fails to
  decode, or it decodes to a chunk.
\<close>

definition payload :: "string \<Rightarrow> string" where
  "payload line = TrimSpace (drop (length ''data: '') line)"

definition is_sentinel :: "string \<Rightarrow> bool" where
  "is_sentinel line \<longleftrightarrow> prefix ''data: '' line \<and> payload line = ''[DONE]''"

definition undecodable :: "(string \<Rightarrow> StreamChunk option) \<Rightarrow> string \<Rightarrow> bool" where
  "undecodable unmarshal line \<longleftrightarrow>
     prefix ''data: '' line \<and> payload line \<noteq> ''[DONE]'' \<and> unmarshal (payload line) = None"

definition decodes :: "(string \<Rightarrow> StreamChunk option) \<Rightarrow> string \<Rightarrow> StreamChunk \<Rightarrow> bool" where
  "decodes unmarshal line chunk \<longleftrightarrow>
     prefix ''data: '' line \<and> payload line \<noteq> ''[DONE]'' \<and> unmarshal (payload line) = Some chunk"

section \<open>Sample streams\<close>

text \<open>
  Concrete inputs on which the theorems below are exercised. A sample decoder stands for
  \<open>json.Unmarshal\<close> on the payloads of one stream: it maps each payload to the chunk
  that the JSON text it abbreviates decodes to, and everything else to a decode error.
\<close>

definition sample_opt :: CompletionOptions where
  "sample_opt = \<lparr>ProgressToken = Some ''tok''\<rparr>"

definition fragment :: "int \<Rightarrow> string \<Rightarrow> string \<Rightarrow> string \<Rightarrow> ToolCallDelta" where
  "fragment k cid name args =
     \<lparr>tcd_Index = Some k, tcd_ID = cid, tcd_Type = (if cid = [] then [] else ''function''),
      tcd_Function = \<lparr>fn_Name = name, fn_Arguments = args\<rparr>\<rparr>"

definition delta_chunk :: "string \<Rightarrow> Delta \<Rightarrow> string option \<Rightarrow> StreamChunk" where
  "delta_chunk cid d fr =
     \<lparr>chunk_ID = cid, chunk_Created = 0, chunk_Model = ''gpt'', chunk_SystemFingerprint = [],
      chunk_Choices = [\<lparr>sc_Index = 0, sc_Delta = Some d, sc_Message = None,
                        sc_FinishReason = fr\<rparr>],
      chunk_Usage = None\<rparr>"

definition tool_delta :: "ToolCallDelta list \<Rightarrow> Delta" where
  "tool_delta fs = \<lparr>d_Role = [], d_Content = None, d_ToolCalls = fs, d_Refusal = None\<rparr>"

definition tools_unmarshal :: "string \<Rightarrow> StreamChunk option" where
  \<open>tools_unmarshal = map_of
     [(''t0a'', delta_chunk ''c1'' (tool_delta [fragment 0 ''call_a'' ''f'' ''{"a":'']) None),
      (''t1a'', delta_chunk ''c1'' (tool_delta [fragment 1 ''call_b'' ''g'' ''{"b":'']) None),
      (''t0b'', delta_chunk ''c1'' (tool_delta [fragment 0 [] [] ''1}'']) None),
      (''t1b'', delta_chunk ''c1'' (tool_delta [fragment 1 [] [] ''2}'']) None)]\<close>

definition tools_body :: Body where
  "tools_body =
     \<lparr>body_bytes = ''data: t0a'' @ [CHR 0x0A, CHR 0x0A] @ ''data: t1a'' @ [CHR 0x0A, CHR 0x0A] @
                   ''data: t0b'' @ [CHR 0x0A, CHR 0x0A] @ ''data: t1b'' @ [CHR 0x0A, CHR 0x0A] @
                   ''data: [DONE]'' @ [CHR 0x0A],
      body_err = None\<rparr>"



definition tools_data :: "string list" where
  "tools_data = [''data: t0a'', [], ''data: t1a'', [], ''data: t0b'', [], ''data: t1b'', []]"

definition tools_lines :: "string list" where
  "tools_lines = tools_data @ [''data: [DONE]'']"

definition content_delta :: "string \<Rightarrow> Delta" where
  "content_delta f = \<lparr>d_Role = [], d_Content = Some f, d_ToolCalls = [], d_Refusal = None\<rparr>"

definition hello_unmarshal :: "string \<Rightarrow> StreamChunk option" where
  "hello_unmarshal = map_of
     [(''h1'', delta_chunk ''c1'' (content_delta ''Hel'') None),
      (''h2'', delta_chunk ''c1'' (content_delta ''lo'') None),
      (''h3'', delta_chunk ''c1'' (content_delta '' world'') (Some ''stop''))]"

definition hello_lines :: "string list" where
  "hello_lines = [''data: h1'', [], ''data: h2'', [], ''data: h3'', [], ''data: [DONE]'']"


definition sse_body :: "string list \<Rightarrow> Body" where
  "sse_body ls = \<lparr>body_bytes = concat (map (\<lambda>l. l @ [CHR 0x0A]) ls), body_err = None\<rparr>"

definition sample_cfg :: Config where
  "sample_cfg = \<lparr>APIKey = ''key'', BaseURL = ''https://api.openai.com/v1'',
                  Headers = [(''Authorization'', ''Bearer key''),
                             (''Content-Type'', ''application/json'')]\<rparr>"

definition sample_env :: Env where
  "sample_env =
     \<lparr>env_apiVersion = [], env_now = 7, env_newRequest = (\<lambda>url. None),
      env_Do = (\<lambda>h. Inr \<lparr>StatusCode = 200, Status = ''200 OK'', Body = sse_body hello_lines\<rparr>),
      env_unmarshalResponse = (\<lambda>s. None), env_unmarshalChunk = hello_unmarshal\<rparr>"

definition sample_req :: Request where
  "sample_req = \<lparr>req_Stream = False, req_StreamOptions = Some \<lparr>IncludeUsage = False\<rparr>,
                  req_Fields = [(''model'', ''gpt'')]\<rparr>"




definition garbled_lines :: "string list" where
  "garbled_lines = [''data: h1'', []] @ ''data: {oops'' # [''data: h2'', [], ''data: h3'', [],
                     ''data: [DONE]'']"

definition hello_event :: "string \<Rightarrow> bool \<Rightarrow> SendCall" where
  "hello_event f hasMore =
     \<lparr>send_Progress =
        \<lparr>cp_Model = ''gpt'', cp_Agent = ''agent'', cp_MessageID = ''c1'',
         cp_Item = \<lparr>item_ID = ''c1-0'', item_Partial = True, item_HasMore = hasMore,
                    item_Content = Some \<lparr>pc_Type = ''text'', pc_Text = f\<rparr>,
                    item_ToolCall = None\<rparr>\<rparr>,
      send_Token = Some ''tok''\<rparr>"

definition hello_result :: Response where
  "hello_result =
     \<lparr>resp_ID = ''c1'', resp_Object = ''chat.completion'', resp_Created = 0,
      resp_Model = ''gpt'', resp_SystemFingerprint = [],
      resp_Choices =
        [\<lparr>ch_Index = 0,
          ch_Message = Some \<lparr>msg_Role = ''assistant'',
                             msg_Content = \<lparr>Text = Some ''Hello world''\<rparr>,
                             msg_ToolCalls = [], msg_Refusal = None\<rparr>,
          ch_FinishReason = Some ''stop''\<rparr>],
      resp_Usage = None\<rparr>"

definition noid_unmarshal :: "string \<Rightarrow> StreamChunk option" where
  "noid_unmarshal = map_of [(''n1'', delta_chunk [] (content_delta ''hi'') (Some ''stop''))]"

definition noid_lines :: "string list" where
  "noid_lines = [''data: n1'', [], ''data: [DONE]'']"

definition noid_env :: Env where
  "noid_env =
     \<lparr>env_apiVersion = [], env_now = 7, env_newRequest = (\<lambda>url. None),
      env_Do = (\<lambda>h. Inr \<lparr>StatusCode = 200, Status = ''200 OK'', Body = sse_body noid_lines\<rparr>),
      env_unmarshalResponse = (\<lambda>s. None), env_unmarshalChunk = noid_unmarshal\<rparr>"

definition noid_result :: Response where
  "noid_result =
     \<lparr>resp_ID = [], resp_Object = ''chat.completion'', resp_Created = 0,
      resp_Model = ''gpt'', resp_SystemFingerprint = [],
      resp_Choices =
        [\<lparr>ch_Index = 0,
          ch_Message = Some \<lparr>msg_Role = ''assistant'', msg_Content = \<lparr>Text = Some ''hi''\<rparr>,
                             msg_ToolCalls = [], msg_Refusal = None\<rparr>,
          ch_FinishReason = Some ''stop''\<rparr>],
      resp_Usage = None\<rparr>"

definition late_unmarshal :: "string \<Rightarrow> StreamChunk option" where
  "late_unmarshal = map_of
     [(''n1'', delta_chunk [] (content_delta ''Hel'') None),
      (''n2'', delta_chunk ''c9'' (content_delta ''lo'') (Some ''stop''))]"

definition late_lines :: "string list" where
  "late_lines = [''data: n1'', [], ''data: n2'', [], ''data: [DONE]'']"

definition noid_state :: StreamState where
  "noid_state =
     \<lparr>st_resp = init_response (delta_chunk [] (content_delta ''Hel'') None),
      st_initialized = True, st_toolCalls = [], st_sends = []\<rparr>"

definition mixed_choice :: StreamChoice where
  \<open>mixed_choice =
     \<lparr>sc_Index = 0,
      sc_Delta = Some \<lparr>d_Role = [], d_Content = Some ''lo'',
                        d_ToolCalls = [fragment 0 ''call_a'' ''f'' ''{"a":''],
                        d_Refusal = None\<rparr>,
      sc_Message = None, sc_FinishReason = None\<rparr>\<close>







section \<open>Invariants of the loop state\<close>

text \<open>
  After the first decoded chunk the response has exactly the one pre-created choice, and
  its message is never \<open>nil\<close>; the accumulator has distinct keys (it is a Go map) and is
  empty before the first chunk.
\<close>

definition shape :: "Response \<Rightarrow> bool" where
  "shape r = (case resp_Choices r of [c] \<Rightarrow> ch_Message c \<noteq> None | _ \<Rightarrow> False)"

definition state_ok :: "StreamState \<Rightarrow> bool" where
  "state_ok st \<longleftrightarrow>
     distinct (map fst (st_toolCalls st)) \<and>
     (if st_initialized st then shape (st_resp st) else st_toolCalls st = [])"

section \<open>Facts about the model\<close>

lemma bindE_Inr_iff: "bindE m f = Inr y \<longleftrightarrow> (\<exists>x. m = Inr x \<and> f x = Inr y)"
  by (cases m) (simp_all add: bindE_def)

lemma bindE_simps [simp]: "bindE (Inl e) f = Inl e" "bindE (Inr x) f = f x"
  by (simp_all add: bindE_def)

lemma shapeD: "shape r \<Longrightarrow> \<exists>c m. resp_Choices r = [c] \<and> ch_Message c = Some m"
  by (auto simp: shape_def split: list.splits)

lemma choice_at_shape:
  "shape r \<Longrightarrow> choice_at r i = Inr c \<Longrightarrow> i = 0 \<and> resp_Choices r = [c]"
  by (auto simp: choice_at_def dest!: shapeD split: if_splits)

lemma shape_set_choice: "shape r \<Longrightarrow> ch_Message c \<noteq> None \<Longrightarrow> shape (set_choice r 0 c)"
  by (auto simp: shape_def set_choice_def split: list.splits)

lemma shape_resp_ID [simp]: "shape (r\<lparr>resp_ID := x\<rparr>) = shape r"
  by (simp add: shape_def)

lemma shape_resp_Usage [simp]: "shape (r\<lparr>resp_Usage := x\<rparr>) = shape r"
  by (simp add: shape_def)

lemma handle_role_frame:
  assumes "handle_role st idx delta = Inr st'" and "shape (st_resp st)"
  shows "shape (st_resp st') \<and> st_toolCalls st' = st_toolCalls st \<and>
         st_initialized st' = st_initialized st \<and> resp_ID (st_resp st') = resp_ID (st_resp st)"
  using assms
  by (auto simp: handle_role_def bindE_Inr_iff set_choice_def choice_at_def shape_def
      split: if_splits option.splits list.splits)

lemma handle_content_frame:
  assumes "handle_content opt a fin st idx delta = Inr st'" and "shape (st_resp st)"
  shows "shape (st_resp st') \<and> st_toolCalls st' = st_toolCalls st \<and>
         st_initialized st' = st_initialized st \<and> resp_ID (st_resp st') = resp_ID (st_resp st)"
  using assms
  by (auto simp: handle_content_def bindE_Inr_iff set_choice_def choice_at_def shape_def
      message_of_def Let_def
      split: if_splits option.splits list.splits)

lemma handle_finish_frame:
  assumes "handle_finish st idx fr = Inr st'" and "shape (st_resp st)"
  shows "shape (st_resp st') \<and> st_toolCalls st' = st_toolCalls st \<and>
         st_initialized st' = st_initialized st \<and> resp_ID (st_resp st') = resp_ID (st_resp st)"
  using assms
  by (auto simp: handle_finish_def bindE_Inr_iff set_choice_def choice_at_def shape_def
      split: if_splits option.splits list.splits)

lemma handle_refusal_frame:
  assumes "handle_refusal st idx delta = Inr st'" and "shape (st_resp st)"
  shows "shape (st_resp st') \<and> st_toolCalls st' = st_toolCalls st \<and>
         st_initialized st' = st_initialized st \<and> resp_ID (st_resp st') = resp_ID (st_resp st)"
  using assms
  by (auto simp: handle_refusal_def bindE_Inr_iff set_choice_def choice_at_def shape_def
      message_of_def
      split: if_splits option.splits list.splits)

lemma tool_fragment_frame:
  "st_resp (tool_fragment opt a fin p st) = st_resp st \<and>
   st_initialized (tool_fragment opt a fin p st) = st_initialized st \<and>
   (distinct (map fst (st_toolCalls st)) \<longrightarrow>
      distinct (map fst (st_toolCalls (tool_fragment opt a fin p st))))"
  by (cases p) (simp add: tool_fragment_def Let_def merge_fragment_def distinct_update)

lemma fold_tool_fragment_frame:
  "st_resp (fold (tool_fragment opt a fin) ps st) = st_resp st \<and>
   st_initialized (fold (tool_fragment opt a fin) ps st) = st_initialized st \<and>
   (distinct (map fst (st_toolCalls st)) \<longrightarrow>
      distinct (map fst (st_toolCalls (fold (tool_fragment opt a fin) ps st))))"
  by (induction ps arbitrary: st) (simp_all add: tool_fragment_frame)

lemma quirk_message_frame:
  assumes "quirk_message opt a now st choice m = Inr st'" and "shape (st_resp st)"
  shows "shape (st_resp st') \<and> st_toolCalls st' = st_toolCalls st \<and>
         st_initialized st' = st_initialized st"
  using assms
  by (auto simp: quirk_message_def bindE_Inr_iff set_choice_def choice_at_def shape_def Let_def
      split: if_splits option.splits list.splits)

lemma normal_delta_ok:
  assumes "normal_delta opt a st choice delta = Inr st'" and "state_ok st" and "st_initialized st"
  shows "state_ok st' \<and> st_initialized st'"
proof -
  from assms(1) obtain s1 s2 s4 where
    1: "handle_role st (sc_Index choice) delta = Inr s1" and
    2: "handle_content opt a (sc_FinishReason choice \<noteq> None) s1 (sc_Index choice) delta = Inr s2" and
    3: "handle_finish (handle_toolcalls opt a (sc_FinishReason choice \<noteq> None) s2 delta)
          (sc_Index choice) (sc_FinishReason choice) = Inr s4" and
    4: "handle_refusal s4 (sc_Index choice) delta = Inr st'"
    by (auto simp: normal_delta_def Let_def bindE_Inr_iff)
  let ?s3 = "handle_toolcalls opt a (sc_FinishReason choice \<noteq> None) s2 delta"
  from assms(2,3) have sh: "shape (st_resp st)" and d: "distinct (map fst (st_toolCalls st))"
    by (simp_all add: state_ok_def)
  note f1 = handle_role_frame [OF 1 sh]
  note f2 = handle_content_frame [OF 2] 
  from f1 f2 have s2: "shape (st_resp s2)" "st_toolCalls s2 = st_toolCalls st" "st_initialized s2 = st_initialized st"
    by simp_all
  have s3: "shape (st_resp ?s3)" "distinct (map fst (st_toolCalls ?s3))" "st_initialized ?s3"
    using s2 d assms(3) fold_tool_fragment_frame [of opt a "sc_FinishReason choice \<noteq> None" "enumerate 0 (d_ToolCalls delta)" s2]
    by (simp_all add: handle_toolcalls_def)
  note f3 = handle_finish_frame [OF 3 s3(1)]
  then have "shape (st_resp s4)" by simp
  note f4 = handle_refusal_frame [OF 4 this]
  from f3 f4 s3 show ?thesis by (simp add: state_ok_def)
qed

lemma process_choice_ok:
  assumes "process_choice opt a now st choice = Inr st'" and "state_ok st" and "st_initialized st"
  shows "state_ok st' \<and> st_initialized st'"
proof (cases "int (length (resp_Choices (st_resp st))) \<le> sc_Index choice")
  case True
  with assms show ?thesis by (simp add: process_choice_def)
next
  case False
  show ?thesis
  proof (cases "sc_Delta choice")
    case (Some delta)
    with False assms(1) have "normal_delta opt a st choice delta = Inr st'"
      by (simp add: process_choice_def)
    from normal_delta_ok [OF this assms(2,3)] show ?thesis .
  next
    case None
    show ?thesis
    proof (cases "sc_Message choice")
      case None
      with \<open>sc_Delta choice = None\<close> False assms show ?thesis by (simp add: process_choice_def)
    next
      case (Some m)
      with \<open>sc_Delta choice = None\<close> False assms(1)
      have q: "quirk_message opt a now st choice m = Inr st'" by (simp add: process_choice_def)
      from assms(2,3) have "shape (st_resp st)" by (simp add: state_ok_def)
      from quirk_message_frame [OF q this] assms(2,3) show ?thesis by (simp add: state_ok_def)
    qed
  qed
qed

lemma foldE_process_choice_ok:
  "foldE (process_choice opt a now) cs st = Inr st' \<Longrightarrow> state_ok st \<Longrightarrow> st_initialized st \<Longrightarrow>
   state_ok st' \<and> st_initialized st'"
proof (induction cs arbitrary: st)
  case Nil
  then show ?case by simp
next
  case (Cons c cs)
  from Cons.prems(1) obtain s1 where 1: "process_choice opt a now st c = Inr s1"
    and 2: "foldE (process_choice opt a now) cs s1 = Inr st'"
    by (auto split: sum.splits)
  from process_choice_ok [OF 1 Cons.prems(2,3)] Cons.IH [OF 2] show ?case by simp
qed

lemma shape_init_response: "shape (init_response chunk)"
  by (simp add: shape_def init_response_def)

lemma chunk_header_ok:
  "state_ok st \<Longrightarrow> state_ok (chunk_header st chunk) \<and> st_initialized (chunk_header st chunk)"
  by (auto simp: chunk_header_def Let_def state_ok_def shape_init_response
      split: option.splits if_splits)

lemma process_chunk_ok:
  assumes "process_chunk opt a now st chunk = Inr st'" and "state_ok st"
  shows "state_ok st' \<and> st_initialized st'"
  using foldE_process_choice_ok [OF assms(1) [unfolded process_chunk_def]]
    chunk_header_ok [OF assms(2)] by simp

lemma stream_lines_ok:
  "stream_lines um opt a now serr st lg ls = Inr (st', lg') \<Longrightarrow> state_ok st \<Longrightarrow> state_ok st'"
proof (induction ls arbitrary: st lg)
  case Nil
  then show ?case by (simp split: option.splits)
next
  case (Cons l ls)
  let ?data = "TrimSpace (drop (length ''data: '') l)"
  show ?case
  proof (cases "prefix ''data: '' l")
    case False
    with Cons show ?thesis by simp
  next
    case True
    show ?thesis
    proof (cases "?data = ''[DONE]''")
      case sentinel: True
      with True Cons.prems show ?thesis by (simp add: Let_def)
    next
      case nd: False
      show ?thesis
      proof (cases "um ?data")
        case None
        with True nd Cons.prems(1)
        have "stream_lines um opt a now serr st (lg @ [?data]) ls = Inr (st', lg')"
          by (simp add: Let_def)
        from Cons.IH [OF this Cons.prems(2)] show ?thesis .
      next
        case (Some chunk)
        with True nd Cons.prems(1) obtain s1 where
          1: "process_chunk opt a now st chunk = Inr s1" and
          2: "stream_lines um opt a now serr s1 lg ls = Inr (st', lg')"
          by (auto simp: Let_def split: sum.splits)
        from process_chunk_ok [OF 1 Cons.prems(2)] have "state_ok s1" by simp
        with 2 show ?thesis by (rule Cons.IH)
      qed
    qed
  qed
qed

lemma state_ok_initial: "state_ok initial_state"
  by (simp add: state_ok_def initial_state_def)

lemma convert_loop_char:
  "distinct (map fst tcs) \<Longrightarrow>
   convert_loop tcs slice =
     (if \<forall>p\<in>set tcs. 0 \<le> fst p \<and> fst p < int (length slice)
      then Inr (map (\<lambda>k. case map_of tcs (int k) of Some v \<Rightarrow> v | None \<Rightarrow> slice ! k)
                 [0..<length slice])
      else Inl (Panic ''index out of range''))"
proof (induction tcs arbitrary: slice)
  case Nil
  then show ?case by (simp add: map_nth)
next
  case (Cons p rest)
  obtain i v where p: "p = (i, v)" by (cases p)
  from Cons.prems p have d: "distinct (map fst rest)" and fresh: "map_of rest i = None"
    by (auto simp: map_of_eq_None_iff)
  show ?case
  proof (cases "0 \<le> i \<and> i < int (length slice)")
    case False
    then show ?thesis using p by auto
  next
    case True
    have cell: "(case map_of rest (int k) of Some w \<Rightarrow> w | None \<Rightarrow> slice[nat i := v] ! k) =
                (case map_of (p # rest) (int k) of Some w \<Rightarrow> w | None \<Rightarrow> slice ! k)"
      if "k < length slice" for k
    proof (cases "int k = i")
      case True
      then have "nat i = k" by simp
      with True fresh that show ?thesis using p by simp
    next
      case False
      then have "nat i \<noteq> k" using \<open>0 \<le> i \<and> i < int (length slice)\<close> by auto
      with False show ?thesis using p by (simp split: option.splits)
    qed
    have "convert_loop (p # rest) slice = convert_loop rest (slice[nat i := v])"
      using True p by simp
    also have "\<dots> = (if \<forall>q\<in>set rest. 0 \<le> fst q \<and> fst q < int (length slice)
      then Inr (map (\<lambda>k. case map_of rest (int k) of Some w \<Rightarrow> w | None \<Rightarrow> slice[nat i := v] ! k)
                 [0..<length slice])
      else Inl (Panic ''index out of range''))"
      using Cons.IH [OF d, of "slice[nat i := v]"] by simp
    also have "\<dots> = (if \<forall>q\<in>set (p # rest). 0 \<le> fst q \<and> fst q < int (length slice)
      then Inr (map (\<lambda>k. case map_of (p # rest) (int k) of Some w \<Rightarrow> w | None \<Rightarrow> slice ! k)
                 [0..<length slice])
      else Inl (Panic ''index out of range''))"
      using True p cell by (auto intro!: map_cong)
    finally show ?thesis .
  qed
qed


text \<open>
  The order in which the entries are visited does not matter: two listings of the same
  map convert alike, so the model's order of first sighting stands for any order Go picks.
\<close>

lemma convert_order:
  assumes d: "distinct (map fst tcs)" and d': "distinct (map fst tcs')"
      and same: "set tcs' = set tcs"
  shows "convert_toolCalls tcs' = convert_toolCalls tcs"
proof -
  from d d' have "distinct tcs" "distinct tcs'"
    by (simp_all add: distinct_map)
  then have len: "length tcs' = length tcs"
    using same by (metis distinct_card)
  have look: "map_of tcs' = map_of tcs"
    using d d' same by (simp add: map_of_inject_set)
  show ?thesis
    by (simp add: convert_toolCalls_def convert_loop_char [OF d] convert_loop_char [OF d']
        len look same)
qed

subsection \<open>One ordinary delta, step by step\<close>

lemma synthID_nonempty: "synthID now \<noteq> []"
  by (simp add: synthID_def)

lemma handle_buffered_ID:
  "handle_buffered um opt a now reader = Inr out \<Longrightarrow> resp_ID (out_Response out) \<noteq> []"
  by (auto simp: handle_buffered_def Let_def bindE_Inr_iff synthID_nonempty
      split: prod.splits option.splits list.splits if_splits)

lemma handle_role_effect:
  assumes "shape (st_resp st)"
  shows "\<exists>st'. handle_role st 0 d = Inr st' \<and> shape (st_resp st') \<and> untouched st st'"
  using assms
  by (auto simp: handle_role_def set_choice_def choice_at_def shape_def untouched_def
      accumulated_text_def split: if_splits option.splits list.splits)

lemma handle_finish_effect:
  assumes "shape (st_resp st)"
  shows "\<exists>st'. handle_finish st 0 fr = Inr st' \<and> shape (st_resp st') \<and> untouched st st'"
  using assms
  by (auto simp: handle_finish_def set_choice_def choice_at_def shape_def untouched_def
      accumulated_text_def split: if_splits option.splits list.splits)

lemma handle_refusal_effect:
  assumes "shape (st_resp st)"
  shows "\<exists>st'. handle_refusal st 0 d = Inr st' \<and> shape (st_resp st') \<and> untouched st st'"
  using assms
  by (auto simp: handle_refusal_def set_choice_def choice_at_def shape_def untouched_def
      message_of_def accumulated_text_def split: if_splits option.splits list.splits)

lemma content_progress_cong:
  "resp_ID r' = resp_ID r \<Longrightarrow> resp_Model r' = resp_Model r \<Longrightarrow>
   content_progress r' a i p h t = content_progress r a i p h t"
  by (simp add: content_progress_def)

lemma toolcall_progress_cong:
  "resp_ID r' = resp_ID r \<Longrightarrow> resp_Model r' = resp_Model r \<Longrightarrow>
   toolcall_progress r' a i p h c n args = toolcall_progress r a i p h c n args"
  by (simp add: toolcall_progress_def)

lemma handle_content_effect:
  assumes "shape (st_resp st)"
  shows "\<exists>st'. handle_content opt a fin st 0 d = Inr st' \<and> shape (st_resp st') \<and>
           resp_ID (st_resp st') = resp_ID (st_resp st) \<and>
           resp_Model (st_resp st') = resp_Model (st_resp st) \<and>
           st_toolCalls st' = st_toolCalls st \<and> st_initialized st' = st_initialized st \<and>
           accumulated_text (st_resp st') =
             (case d_Content d of
                None \<Rightarrow> accumulated_text (st_resp st)
              | Some f \<Rightarrow> Some ((case accumulated_text (st_resp st) of None \<Rightarrow> [] | Some t \<Rightarrow> t) @ f)) \<and>
           st_sends st' =
             (case d_Content d of
                None \<Rightarrow> st_sends st
              | Some f \<Rightarrow>
                  if resp_ID (st_resp st) \<noteq> [] \<and> ProgressToken opt \<noteq> None
                  then Send opt (content_progress (st_resp st) a
                         (resp_ID (st_resp st) @ ''-'' @ itoa 0) True (\<not> fin) f) (st_sends st)
                  else st_sends st)"
  using assms
  by (auto simp: handle_content_def set_choice_def choice_at_def shape_def Let_def
      message_of_def accumulated_text_def content_progress_def
      split: if_splits option.splits list.splits)

lemma tool_fragment_effect:
  "st_resp (tool_fragment opt a fin p st) = st_resp st \<and>
   st_initialized (tool_fragment opt a fin p st) = st_initialized st \<and>
   st_toolCalls (tool_fragment opt a fin p st) =
     merge_fragment (st_toolCalls st) (fragment_index (fst p) (snd p)) (snd p) \<and>
   (resp_ID (st_resp st) = [] \<or> ProgressToken opt = None \<longrightarrow>
      st_sends (tool_fragment opt a fin p st) = st_sends st)"
  by (cases p) (auto simp: tool_fragment_def Let_def)

lemma fold_tool_fragment_effect:
  "st_resp (fold (tool_fragment opt a fin) ps st) = st_resp st \<and>
   st_initialized (fold (tool_fragment opt a fin) ps st) = st_initialized st \<and>
   st_toolCalls (fold (tool_fragment opt a fin) ps st) =
     fold (\<lambda>(i, f) acc. merge_fragment acc (fragment_index i f) f) ps (st_toolCalls st) \<and>
   (resp_ID (st_resp st) = [] \<or> ProgressToken opt = None \<longrightarrow>
      st_sends (fold (tool_fragment opt a fin) ps st) = st_sends st)"
proof (induction ps arbitrary: st)
  case Nil
  show ?case by simp
next
  case (Cons p ps)
  show ?case
    using Cons.IH [of "tool_fragment opt a fin p st"] tool_fragment_effect [of opt a fin p st]
    by (cases p) auto
qed

lemma handle_toolcalls_effect:
  "st_resp (handle_toolcalls opt a fin st d) = st_resp st \<and>
   st_initialized (handle_toolcalls opt a fin st d) = st_initialized st \<and>
   st_toolCalls (handle_toolcalls opt a fin st d) = merge_all (st_toolCalls st) (d_ToolCalls d) \<and>
   (resp_ID (st_resp st) = [] \<or> ProgressToken opt = None \<or> d_ToolCalls d = [] \<longrightarrow>
      st_sends (handle_toolcalls opt a fin st d) = st_sends st)"
  using fold_tool_fragment_effect [of opt a fin "enumerate 0 (d_ToolCalls d)" st]
  by (auto simp: handle_toolcalls_def merge_all_def)

lemma distinct_merge_all:
  "distinct (map fst acc) \<Longrightarrow> distinct (map fst (merge_all acc fs))"
proof -
  have "distinct (map fst acc) \<Longrightarrow>
        distinct (map fst (fold (\<lambda>(i, f) acc. merge_fragment acc (fragment_index i f) f) ps acc))"
    for ps :: "(nat \<times> ToolCallDelta) list"
    by (induction ps arbitrary: acc) (auto simp: merge_fragment_def distinct_update)
  then show "distinct (map fst acc) \<Longrightarrow> distinct (map fst (merge_all acc fs))"
    by (simp add: merge_all_def)
qed

lemma normal_delta_step:
  assumes ok: "state_ok st" and init: "st_initialized st" and idx: "sc_Index ch = 0"
  shows "\<exists>st'. normal_delta opt a st ch d = Inr st' \<and> state_ok st' \<and> st_initialized st' \<and>
           resp_ID (st_resp st') = resp_ID (st_resp st) \<and>
           resp_Model (st_resp st') = resp_Model (st_resp st) \<and>
           st_toolCalls st' = merge_all (st_toolCalls st) (d_ToolCalls d) \<and>
           accumulated_text (st_resp st') =
             (case d_Content d of
                None \<Rightarrow> accumulated_text (st_resp st)
              | Some f \<Rightarrow> Some ((case accumulated_text (st_resp st) of None \<Rightarrow> [] | Some t \<Rightarrow> t) @ f)) \<and>
           (resp_ID (st_resp st) = [] \<or> ProgressToken opt = None \<longrightarrow> st_sends st' = st_sends st) \<and>
           (d_ToolCalls d = [] \<longrightarrow>
              st_sends st' =
                (case d_Content d of
                   None \<Rightarrow> st_sends st
                 | Some f \<Rightarrow>
                     if resp_ID (st_resp st) \<noteq> [] \<and> ProgressToken opt \<noteq> None
                     then Send opt (content_progress (st_resp st) a
                            (resp_ID (st_resp st) @ ''-'' @ itoa 0) True
                            (sc_FinishReason ch = None) f) (st_sends st)
                     else st_sends st))"
proof -
  let ?fin = "sc_FinishReason ch \<noteq> None"
  from ok init have sh: "shape (st_resp st)" and dist: "distinct (map fst (st_toolCalls st))"
    by (simp_all add: state_ok_def)
  from handle_role_effect [OF sh] obtain s1 where
    1: "handle_role st 0 d = Inr s1" and sh1: "shape (st_resp s1)" and u1: "untouched st s1"
    by blast
  from handle_content_effect [OF sh1, of opt a ?fin d] obtain s2 where
    2: "handle_content opt a ?fin s1 0 d = Inr s2" and sh2: "shape (st_resp s2)" and
    e2: "resp_ID (st_resp s2) = resp_ID (st_resp s1)"
        "resp_Model (st_resp s2) = resp_Model (st_resp s1)"
        "st_toolCalls s2 = st_toolCalls s1" "st_initialized s2 = st_initialized s1"
        "accumulated_text (st_resp s2) =
             (case d_Content d of
                None \<Rightarrow> accumulated_text (st_resp s1)
              | Some f \<Rightarrow> Some ((case accumulated_text (st_resp s1) of None \<Rightarrow> [] | Some t \<Rightarrow> t) @ f))"
        "st_sends s2 =
             (case d_Content d of
                None \<Rightarrow> st_sends s1
              | Some f \<Rightarrow>
                  if resp_ID (st_resp s1) \<noteq> [] \<and> ProgressToken opt \<noteq> None
                  then Send opt (content_progress (st_resp s1) a
                         (resp_ID (st_resp s1) @ ''-'' @ itoa 0) True (\<not> ?fin) f) (st_sends s1)
                  else st_sends s1)"
    by blast
  let ?s3 = "handle_toolcalls opt a ?fin s2 d"
  note e3 = handle_toolcalls_effect [of opt a ?fin s2 d]
  from e3 sh2 have sh3: "shape (st_resp ?s3)" by simp
  from handle_finish_effect [OF sh3, of "sc_FinishReason ch"] obtain s4 where
    4: "handle_finish ?s3 0 (sc_FinishReason ch) = Inr s4" and sh4: "shape (st_resp s4)" and
    u4: "untouched ?s3 s4"
    by blast
  from handle_refusal_effect [OF sh4, of d] obtain s5 where
    5: "handle_refusal s4 0 d = Inr s5" and sh5: "shape (st_resp s5)" and u5: "untouched s4 s5"
    by blast
  have run: "normal_delta opt a st ch d = Inr s5"
    unfolding normal_delta_def Let_def idx by (simp only: 1 2 4 5 bindE_simps)
  from u1 have v1:
    "resp_ID (st_resp s1) = resp_ID (st_resp st)" "resp_Model (st_resp s1) = resp_Model (st_resp st)"
    "st_toolCalls s1 = st_toolCalls st" "st_sends s1 = st_sends st"
    "st_initialized s1 = st_initialized st"
    "accumulated_text (st_resp s1) = accumulated_text (st_resp st)"
    by (simp_all add: untouched_def)
  have v3:
    "st_resp ?s3 = st_resp s2" "st_initialized ?s3 = st_initialized s2"
    "st_toolCalls ?s3 = merge_all (st_toolCalls s2) (d_ToolCalls d)"
    using e3 [THEN conjunct1] e3 [THEN conjunct2, THEN conjunct1]
      e3 [THEN conjunct2, THEN conjunct2, THEN conjunct1] .
  from u4 have v4:
    "resp_ID (st_resp s4) = resp_ID (st_resp ?s3)" "resp_Model (st_resp s4) = resp_Model (st_resp ?s3)"
    "st_toolCalls s4 = st_toolCalls ?s3" "st_sends s4 = st_sends ?s3"
    "st_initialized s4 = st_initialized ?s3"
    "accumulated_text (st_resp s4) = accumulated_text (st_resp ?s3)"
    by (simp_all only: untouched_def)
  from u5 have v5:
    "resp_ID (st_resp s5) = resp_ID (st_resp s4)" "resp_Model (st_resp s5) = resp_Model (st_resp s4)"
    "st_toolCalls s5 = st_toolCalls s4" "st_sends s5 = st_sends s4"
    "st_initialized s5 = st_initialized s4"
    "accumulated_text (st_resp s5) = accumulated_text (st_resp s4)"
    by (simp_all only: untouched_def)
  have cp: "content_progress (st_resp s1) a i p h t = content_progress (st_resp st) a i p h t"
    for i p h t
    by (rule content_progress_cong) (simp_all only: v1)
  have tc: "st_toolCalls s5 = merge_all (st_toolCalls st) (d_ToolCalls d)"
    by (simp only: v5 v4 v3 e2 v1)
  have ids: "resp_ID (st_resp s5) = resp_ID (st_resp st)"
            "resp_Model (st_resp s5) = resp_Model (st_resp st)"
    by (simp_all only: v5 v4 v3 e2 v1)
  have "st_initialized s5"
    using init by (simp only: v5 v4 v3 e2 v1)
  moreover have "distinct (map fst (st_toolCalls s5))"
    unfolding tc using dist by (rule distinct_merge_all)
  ultimately have okk: "state_ok s5 \<and> st_initialized s5"
    using sh5 by (simp add: state_ok_def)
  have acc_text: "accumulated_text (st_resp s5) =
             (case d_Content d of
                None \<Rightarrow> accumulated_text (st_resp st)
              | Some f \<Rightarrow> Some ((case accumulated_text (st_resp st) of None \<Rightarrow> [] | Some t \<Rightarrow> t) @ f))"
    by (simp only: v5 v4 v3 e2(5) v1)
  have s2: "st_sends s2 =
             (case d_Content d of
                None \<Rightarrow> st_sends st
              | Some f \<Rightarrow>
                  if resp_ID (st_resp st) \<noteq> [] \<and> ProgressToken opt \<noteq> None
                  then Send opt (content_progress (st_resp st) a
                         (resp_ID (st_resp st) @ ''-'' @ itoa 0) True (\<not> ?fin) f) (st_sends st)
                  else st_sends st)"
    by (simp only: e2(6) v1 cp)
  have s5: "st_sends s5 = st_sends ?s3"
    by (simp only: v5 v4)
  have quiet: "st_sends s5 = st_sends st" if "resp_ID (st_resp st) = [] \<or> ProgressToken opt = None"
  proof -
    from that have "resp_ID (st_resp s2) = [] \<or> ProgressToken opt = None"
      by (simp only: e2(1) v1(1))
    with e3 have "st_sends ?s3 = st_sends s2" by blast
    moreover from that s2 have "st_sends s2 = st_sends st"
      by (auto split: option.splits)
    ultimately show ?thesis using s5 by simp
  qed
  have only: "st_sends s5 =
                (case d_Content d of
                   None \<Rightarrow> st_sends st
                 | Some f \<Rightarrow>
                     if resp_ID (st_resp st) \<noteq> [] \<and> ProgressToken opt \<noteq> None
                     then Send opt (content_progress (st_resp st) a
                            (resp_ID (st_resp st) @ ''-'' @ itoa 0) True
                            (sc_FinishReason ch = None) f) (st_sends st)
                     else st_sends st)" if "d_ToolCalls d = []"
  proof -
    from that e3 have s3: "st_sends ?s3 = st_sends s2" by blast
    show ?thesis by (simp only: s5 s3 s2 not_not)
  qed
  show ?thesis
    by (rule exI [of _ s5], intro conjI impI)
       (rule run okk [THEN conjunct1] okk [THEN conjunct2] ids tc acc_text
         | erule quiet | erule only)+
qed

subsection \<open>The loop, line by line\<close>

lemma stream_lines_other:
  "\<not> prefix ''data: '' l \<Longrightarrow>
   stream_lines um opt a now serr st lg (l # ls) = stream_lines um opt a now serr st lg ls"
  by simp

lemma stream_lines_sentinel:
  "is_sentinel l \<Longrightarrow> stream_lines um opt a now serr st lg (l # ls) = Inr (st, lg)"
  by (simp add: is_sentinel_def payload_def)

lemma stream_lines_undecodable:
  "undecodable um l \<Longrightarrow>
   stream_lines um opt a now serr st lg (l # ls) =
     stream_lines um opt a now serr st (lg @ [payload l]) ls"
  by (simp add: undecodable_def payload_def)

lemma stream_lines_decodes:
  "decodes um l chunk \<Longrightarrow>
   stream_lines um opt a now serr st lg (l # ls) =
     bindE (process_chunk opt a now st chunk) (\<lambda>st'. stream_lines um opt a now serr st' lg ls)"
  by (simp add: decodes_def payload_def bindE_def)

lemma line_cases:
  obtains (other) "\<not> prefix ''data: '' l" | (sentinel) "is_sentinel l"
  | (undecodable) "undecodable um l" | (chunk) chunk where "decodes um l chunk"
  by (cases "um (payload l)") (auto simp: is_sentinel_def undecodable_def decodes_def)

declare stream_lines.simps(2) [simp del]

lemma stream_lines_log:
  "stream_lines um opt a now serr st lg ls =
     map_sum (\<lambda>e. e) (\<lambda>(s, l). (s, lg @ l)) (stream_lines um opt a now serr st [] ls)"
proof (induction ls arbitrary: st lg)
  case Nil
  show ?case by (simp split: option.splits)
next
  case (Cons l ls)
  show ?case
  proof (cases rule: line_cases [where l = l and um = um])
    case other
    then show ?thesis using Cons.IH [of st lg] by (simp add: stream_lines_other)
  next
    case sentinel
    then show ?thesis by (simp add: stream_lines_sentinel)
  next
    case undecodable
    have "stream_lines um opt a now serr st (lg @ [payload l]) ls =
          map_sum (\<lambda>e. e) (\<lambda>(s, l'). (s, (lg @ [payload l]) @ l')) (stream_lines um opt a now serr st [] ls)"
      by (rule Cons.IH)
    moreover have "stream_lines um opt a now serr st ([] @ [payload l]) ls =
          map_sum (\<lambda>e. e) (\<lambda>(s, l'). (s, ([] @ [payload l]) @ l')) (stream_lines um opt a now serr st [] ls)"
      by (rule Cons.IH)
    ultimately show ?thesis using undecodable
      by (cases "stream_lines um opt a now serr st [] ls")
         (auto simp: stream_lines_undecodable)
  next
    case (chunk c)
    show ?thesis
    proof (cases "process_chunk opt a now st c")
      case (Inl e)
      with chunk show ?thesis by (simp add: stream_lines_decodes)
    next
      case (Inr st')
      with chunk show ?thesis using Cons.IH [of st' lg] by (simp add: stream_lines_decodes)
    qed
  qed
qed

lemma stream_lines_state_log:
  "map_sum (\<lambda>e. e) fst (stream_lines um opt a now serr st lg ls) =
   map_sum (\<lambda>e. e) fst (stream_lines um opt a now serr st [] ls)"
  by (subst stream_lines_log) (cases "stream_lines um opt a now serr st [] ls", auto)


lemma stream_lines_drop_undecodable:
  "undecodable um l \<Longrightarrow>
   map_sum (\<lambda>e. e) fst (stream_lines um opt a now serr st lg (xs @ l # ys)) =
   map_sum (\<lambda>e. e) fst (stream_lines um opt a now serr st lg (xs @ ys))"
proof (induction xs arbitrary: st lg)
  case Nil
  then show ?case
    using stream_lines_state_log [of um opt a now serr st "lg @ [payload l]" ys]
      stream_lines_state_log [of um opt a now serr st lg ys]
    by (simp add: stream_lines_undecodable)
next
  case (Cons x xs)
  show ?case
  proof (cases rule: line_cases [where l = x and um = um])
    case other
    with Cons show ?thesis by (simp add: stream_lines_other)
  next
    case sentinel
    then show ?thesis by (simp add: stream_lines_sentinel)
  next
    case undecodable
    with Cons show ?thesis by (simp add: stream_lines_undecodable)
  next
    case (chunk c)
    show ?thesis
    proof (cases "process_chunk opt a now st c")
      case (Inl e)
      with chunk show ?thesis by (simp add: stream_lines_decodes)
    next
      case (Inr st')
      with chunk Cons show ?thesis by (simp add: stream_lines_decodes)
    qed
  qed
qed

subsection \<open>One decoded chunk\<close>

text \<open>
  What the loop body does with a chunk that has one choice with index 0 and a delta,
  relative to the state after the head of the loop body.
\<close>

lemma itoa_0: "itoa 0 = ''0''"
  by (simp add: itoa_def digits.simps)

lemma chunk_header_effect:
  "st_toolCalls (chunk_header st c) = st_toolCalls st \<and>
   st_sends (chunk_header st c) = st_sends st \<and>
   resp_ID (st_resp (chunk_header st c)) = header_ID st c \<and>
   resp_Model (st_resp (chunk_header st c)) =
     (if st_initialized st then resp_Model (st_resp st) else chunk_Model c) \<and>
   accumulated_text (st_resp (chunk_header st c)) =
     (if st_initialized st then accumulated_text (st_resp st) else None)"
  by (cases "st_initialized st"; cases "chunk_Usage c"; cases "chunk_ID c = []";
      cases "resp_ID (st_resp st) = []")
     (simp_all add: chunk_header_def Let_def header_ID_def init_response_def accumulated_text_def)


lemma process_chunk_delta:
  assumes ok: "state_ok st" and one: "chunk_Choices c = [ch]" and idx: "sc_Index ch = 0"
      and dl: "sc_Delta ch = Some d"
  shows "process_chunk opt a now st c = normal_delta opt a (chunk_header st c) ch d"
proof -
  from chunk_header_ok [OF ok, of c] have "shape (st_resp (chunk_header st c))"
    by (simp add: state_ok_def)
  then have "length (resp_Choices (st_resp (chunk_header st c))) = 1"
    by (auto dest: shapeD)
  then show ?thesis
    by (cases "normal_delta opt a (chunk_header st c) ch d")
       (simp_all add: process_chunk_def one process_choice_def idx dl)
qed

lemma process_choice_delta:
  assumes ok: "state_ok st" and init: "st_initialized st" and idx: "sc_Index ch = 0"
      and dl: "sc_Delta ch = Some d"
  shows "process_choice opt a now st ch = normal_delta opt a st ch d"
proof -
  from ok init have "shape (st_resp st)" by (simp add: state_ok_def)
  then have "length (resp_Choices (st_resp st)) = 1" by (auto dest: shapeD)
  then show ?thesis by (simp add: process_choice_def idx dl)
qed

lemma delta_chunk_step:
  assumes ok: "state_ok st" and one: "chunk_Choices c = [ch]" and idx: "sc_Index ch = 0"
      and dl: "sc_Delta ch = Some d"
  shows "\<exists>st'. process_chunk opt a now st c = Inr st' \<and> state_ok st' \<and> st_initialized st' \<and>
           resp_ID (st_resp st') = header_ID st c \<and>
           resp_Model (st_resp st') =
             (if st_initialized st then resp_Model (st_resp st) else chunk_Model c) \<and>
           st_toolCalls st' = merge_all (st_toolCalls st) (d_ToolCalls d) \<and>
           accumulated_text (st_resp st') =
             (case d_Content d of
                None \<Rightarrow> (if st_initialized st then accumulated_text (st_resp st) else None)
              | Some f \<Rightarrow>
                  Some ((case (if st_initialized st then accumulated_text (st_resp st) else None) of
                           None \<Rightarrow> [] | Some t \<Rightarrow> t) @ f)) \<and>
           (header_ID st c = [] \<or> ProgressToken opt = None \<longrightarrow> st_sends st' = st_sends st) \<and>
           (d_ToolCalls d = [] \<longrightarrow>
              st_sends st' =
                (case d_Content d of
                   None \<Rightarrow> st_sends st
                 | Some f \<Rightarrow>
                     if header_ID st c \<noteq> [] \<and> ProgressToken opt \<noteq> None
                     then Send opt (content_progress (st_resp (chunk_header st c)) a
                            (header_ID st c @ ''-'' @ itoa 0) True
                            (sc_FinishReason ch = None) f) (st_sends st)
                     else st_sends st))"
proof -
  let ?h = "chunk_header st c"
  note h = chunk_header_ok [OF ok, of c]
  note e = chunk_header_effect [of st c]
  from normal_delta_step [OF h [THEN conjunct1] h [THEN conjunct2] idx, of opt a d]
  obtain st' where
    run: "normal_delta opt a ?h ch d = Inr st'" and
    p: "state_ok st'" "st_initialized st'"
       "resp_ID (st_resp st') = resp_ID (st_resp ?h)"
       "resp_Model (st_resp st') = resp_Model (st_resp ?h)"
       "st_toolCalls st' = merge_all (st_toolCalls ?h) (d_ToolCalls d)"
       "accumulated_text (st_resp st') =
             (case d_Content d of
                None \<Rightarrow> accumulated_text (st_resp ?h)
              | Some f \<Rightarrow> Some ((case accumulated_text (st_resp ?h) of None \<Rightarrow> [] | Some t \<Rightarrow> t) @ f))"
       "resp_ID (st_resp ?h) = [] \<or> ProgressToken opt = None \<longrightarrow> st_sends st' = st_sends ?h"
       "d_ToolCalls d = [] \<longrightarrow>
              st_sends st' =
                (case d_Content d of
                   None \<Rightarrow> st_sends ?h
                 | Some f \<Rightarrow>
                     if resp_ID (st_resp ?h) \<noteq> [] \<and> ProgressToken opt \<noteq> None
                     then Send opt (content_progress (st_resp ?h) a
                            (resp_ID (st_resp ?h) @ ''-'' @ itoa 0) True
                            (sc_FinishReason ch = None) f) (st_sends ?h)
                     else st_sends ?h)"
    by (elim exE conjE) (rule that, assumption+)
  have run': "process_chunk opt a now st c = Inr st'"
    by (simp only: process_chunk_delta [OF ok one idx dl] run)
  note e1 = e [THEN conjunct1] and e2 = e [THEN conjunct2, THEN conjunct1]
    and e3 = e [THEN conjunct2, THEN conjunct2, THEN conjunct1]
    and e4 = e [THEN conjunct2, THEN conjunct2, THEN conjunct2, THEN conjunct1]
    and e5 = e [THEN conjunct2, THEN conjunct2, THEN conjunct2, THEN conjunct2]
  show ?thesis
    apply (rule exI [of _ st'])
    apply (intro conjI)
            apply (rule run')
           apply (rule p(1))
          apply (rule p(2))
         apply (simp only: p(3) e3)
        apply (simp only: p(4) e4)
       apply (simp only: p(5) e1)
      apply (simp only: p(6) e5)
    using p(7) apply (simp only: e3 e2)
    using p(8) apply (simp only: e3 e2)
    done
qed

lemma Send_content_progress:
  "Send opt (content_progress r a (resp_ID r @ ''-'' @ itoa 0) True (fr = None) f) sends =
   sends @ [fragment_event opt a (resp_Model r) (resp_ID r) f fr]"
  by (simp add: Send_def content_progress_def itoa_0 fragment_event_def)

lemma content_chunkD:
  assumes "content_chunk c f fr"
  obtains ch d where "chunk_Choices c = [ch]" "sc_Index ch = 0" "sc_FinishReason ch = fr"
    "sc_Delta ch = Some d" "d_Content d = Some f" "d_ToolCalls d = []"
  using assms by (auto simp: content_chunk_def split: list.splits option.splits)

lemma content_chunk_step:
  assumes ok: "state_ok st" and cc: "content_chunk c f fr"
  shows "\<exists>st'. process_chunk opt a now st c = Inr st' \<and> state_ok st' \<and> st_initialized st' \<and>
           resp_ID (st_resp st') = header_ID st c \<and>
           resp_Model (st_resp st') =
             (if st_initialized st then resp_Model (st_resp st) else chunk_Model c) \<and>
           st_toolCalls st' = st_toolCalls st \<and>
           accumulated_text (st_resp st') =
             Some ((case (if st_initialized st then accumulated_text (st_resp st) else None) of
                      None \<Rightarrow> [] | Some t \<Rightarrow> t) @ f) \<and>
           st_sends st' =
             (if header_ID st c \<noteq> [] \<and> ProgressToken opt \<noteq> None
              then st_sends st @
                   [fragment_event opt a
                      (if st_initialized st then resp_Model (st_resp st) else chunk_Model c)
                      (header_ID st c) f fr]
              else st_sends st)"
proof -
  from cc obtain ch d where c: "chunk_Choices c = [ch]" "sc_Index ch = 0"
    "sc_FinishReason ch = fr" "sc_Delta ch = Some d" and d: "d_Content d = Some f"
    "d_ToolCalls d = []"
    by (rule content_chunkD)
  note e = chunk_header_effect [of st c]
  have idm: "resp_ID (st_resp (chunk_header st c)) = header_ID st c"
    "resp_Model (st_resp (chunk_header st c)) =
       (if st_initialized st then resp_Model (st_resp st) else chunk_Model c)"
    using e by simp_all
  from delta_chunk_step [OF ok c(1,2,4), of opt a now] obtain st' where
    run: "process_chunk opt a now st c = Inr st'" and
    p: "state_ok st'" "st_initialized st'" "resp_ID (st_resp st') = header_ID st c"
       "resp_Model (st_resp st') =
             (if st_initialized st then resp_Model (st_resp st) else chunk_Model c)"
       "st_toolCalls st' = merge_all (st_toolCalls st) (d_ToolCalls d)"
       "accumulated_text (st_resp st') =
             (case d_Content d of
                None \<Rightarrow> (if st_initialized st then accumulated_text (st_resp st) else None)
              | Some f \<Rightarrow>
                  Some ((case (if st_initialized st then accumulated_text (st_resp st) else None) of
                           None \<Rightarrow> [] | Some t \<Rightarrow> t) @ f))" and
    q: "d_ToolCalls d = [] \<longrightarrow>
              st_sends st' =
                (case d_Content d of
                   None \<Rightarrow> st_sends st
                 | Some f \<Rightarrow>
                     if header_ID st c \<noteq> [] \<and> ProgressToken opt \<noteq> None
                     then Send opt (content_progress (st_resp (chunk_header st c)) a
                            (header_ID st c @ ''-'' @ itoa 0) True
                            (sc_FinishReason ch = None) f) (st_sends st)
                     else st_sends st)"
    by (elim exE conjE) (rule that, assumption+)
  have tc: "st_toolCalls st' = st_toolCalls st"
    using p(5) by (simp add: d merge_all_def)
  have tx: "accumulated_text (st_resp st') =
             Some ((case (if st_initialized st then accumulated_text (st_resp st) else None) of
                      None \<Rightarrow> [] | Some t \<Rightarrow> t) @ f)"
    using p(6) by (simp only: d option.case)
  have sn: "st_sends st' =
             (if header_ID st c \<noteq> [] \<and> ProgressToken opt \<noteq> None
              then st_sends st @
                   [fragment_event opt a
                      (if st_initialized st then resp_Model (st_resp st) else chunk_Model c)
                      (header_ID st c) f fr]
              else st_sends st)"
    using q [rule_format, OF d(2)]
      Send_content_progress [of opt "st_resp (chunk_header st c)" a fr f "st_sends st"]
    by (simp only: d option.case c(3) idm)
  show ?thesis
    by (rule exI [of _ st'], intro conjI) (rule run p(1-4) tc tx sn)+
qed

lemma header_ID_initial: "header_ID initial_state c = chunk_ID c"
  by (simp add: header_ID_def initial_state_def)

lemma header_ID_kept:
  "st_initialized st \<Longrightarrow> resp_ID (st_resp st) \<noteq> [] \<Longrightarrow> header_ID st c = resp_ID (st_resp st)"
  by (simp add: header_ID_def)

lemma tool_chunkD:
  assumes "tool_chunk c g"
  obtains ch d where "chunk_Choices c = [ch]" "sc_Index ch = 0" "sc_Delta ch = Some d"
    "d_ToolCalls d = [g]"
  using assms by (auto simp: tool_chunk_def split: list.splits option.splits)

lemma tool_chunk_step:
  assumes ok: "state_ok st" and tc: "tool_chunk c g" and k: "tcd_Index g = Some k"
  shows "\<exists>st'. process_chunk opt a now st c = Inr st' \<and> state_ok st' \<and>
           st_toolCalls st' = merge_fragment (st_toolCalls st) k g"
proof -
  from tc obtain ch d where c: "chunk_Choices c = [ch]" "sc_Index ch = 0" "sc_Delta ch = Some d"
    and d: "d_ToolCalls d = [g]"
    by (rule tool_chunkD)
  from delta_chunk_step [OF ok c, of opt a now] obtain st' where
    run: "process_chunk opt a now st c = Inr st'" and p: "state_ok st'"
      "st_toolCalls st' = merge_all (st_toolCalls st) (d_ToolCalls d)"
    by (elim exE conjE) (rule that, assumption+)
  have "merge_all (st_toolCalls st) (d_ToolCalls d) = merge_fragment (st_toolCalls st) k g"
    by (simp add: d merge_all_def fragment_index_def k)
  with run p show ?thesis by simp
qed

lemma merge_fragment_lookup:
  "map_of (merge_fragment acc k g) j =
     (if j = k then Some (merge_entry acc k g) else map_of acc j)"
  by (simp add: merge_fragment_def update_conv')

lemma stream_lines_filter:
  "stream_lines um opt a now serr st lg ls =
   stream_lines um opt a now serr st lg (filter (prefix ''data: '') ls)"
proof (induction ls arbitrary: st lg)
  case Nil
  show ?case by simp
next
  case (Cons l ls)
  show ?case
  proof (cases rule: line_cases [where l = l and um = um])
    case other
    then show ?thesis using Cons.IH by (simp add: stream_lines_other)
  next
    case sentinel
    then show ?thesis by (simp add: stream_lines_sentinel is_sentinel_def)
  next
    case undecodable
    then show ?thesis using Cons.IH by (simp add: stream_lines_undecodable undecodable_def)
  next
    case (chunk c)
    then show ?thesis using Cons.IH by (simp add: stream_lines_decodes decodes_def)
  qed
qed

lemma handle_sse_view:
  assumes "Scanner reader = (ls, serr)"
  shows "map_sum (\<lambda>e. e) (\<lambda>out. (out_Response out, out_Sends out)) (handle_sse um opt a now reader) =
         bindE (map_sum (\<lambda>e. e) fst (stream_lines um opt a now serr initial_state [] ls))
           (\<lambda>st. bindE (finalize st) (\<lambda>resp. Inr (resp, st_sends st)))"
proof (cases "stream_lines um opt a now serr initial_state [] ls")
  case (Inl e)
  then show ?thesis by (simp add: handle_sse_def assms)
next
  case (Inr r)
  obtain st lg where "r = (st, lg)" by (cases r)
  with Inr show ?thesis
    by (cases "finalize st") (simp_all add: handle_sse_def assms)
qed

subsection \<open>The reader and the finalization\<close>




lemma finalize_converted:
  assumes ok: "state_ok st" and ne: "st_toolCalls st \<noteq> []"
      and conv: "convert_toolCalls (st_toolCalls st) = Inr slice"
  shows "\<exists>resp c m. finalize st = Inr resp \<and> resp_Choices resp = [c] \<and>
           ch_Message c = Some m \<and> msg_ToolCalls m = slice"
proof -
  from ok ne have "shape (st_resp st)"
    by (auto simp: state_ok_def split: if_splits)
  then obtain c m where "resp_Choices (st_resp st) = [c]" "ch_Message c = Some m"
    by (auto dest: shapeD)
  with ne conv show ?thesis
    by (simp add: finalize_def choice_at_def message_of_def set_choice_def)
qed




subsection \<open>A complete message and the delta that spells it\<close>










subsection \<open>Evaluating runs on concrete input\<close>

text \<open>
  The definitions that evaluation of a run unfolds, and the sample runs evaluated.
\<close>

lemmas chunk_eval =
  process_chunk_def chunk_header_def init_response_def process_choice_def normal_delta_def
  quirk_message_def handle_role_def handle_content_def handle_toolcalls_def tool_fragment_def
  handle_finish_def handle_refusal_def merge_fragment_def merge_entry_def fragment_index_def
  choice_at_def set_choice_def message_of_def Send_def content_progress_def
  toolcall_progress_def send_message_toolcalls_def synthID_def Let_def enumerate_eq_zip
  stream_lines.simps

lemmas trim_eval = TrimSpace_def strip_runes.simps space_runes_def

lemmas scan_eval =
  Scanner_def NewReader_def sse_body_def dropCR_def MaxScanTokenSize_def Peek_def ReadAll_def

lemmas line_eval = is_sentinel_def undecodable_def decodes_def payload_def


lemma tools_run:
  \<open>\<exists>st. stream_lines tools_unmarshal sample_opt ''agent'' 7 None initial_state [] tools_lines
          = Inr (st, []) \<and>
        st_toolCalls st =
          [(0, \<lparr>tc_ID = ''call_a'', tc_Type = ''function'',
                tc_Function = \<lparr>fn_Name = ''f'', fn_Arguments = ''{"a":1}''\<rparr>\<rparr>),
           (1, \<lparr>tc_ID = ''call_b'', tc_Type = ''function'',
                tc_Function = \<lparr>fn_Name = ''g'', fn_Arguments = ''{"b":2}''\<rparr>\<rparr>)]\<close>
  by (simp add: tools_lines_def tools_data_def tools_unmarshal_def delta_chunk_def tool_delta_def fragment_def
      sample_opt_def initial_state_def zeroResponse_def chunk_eval trim_eval)

lemma hello_run:
  "handle_sse hello_unmarshal sample_opt ''agent'' 7 (NewReader (sse_body hello_lines)) =
     Inr \<lparr>out_Response = hello_result,
          out_Sends = [hello_event ''Hel'' True, hello_event ''lo'' True,
                       hello_event '' world'' False],
          out_Errlog = []\<rparr>"
  by (simp add: hello_lines_def hello_unmarshal_def delta_chunk_def content_delta_def
      sample_opt_def initial_state_def zeroResponse_def chunk_eval trim_eval scan_eval
      handle_sse_def finalize_def itoa_0 hello_result_def hello_event_def)

lemma garbled_run:
  "handle_sse hello_unmarshal sample_opt ''agent'' 7 (NewReader (sse_body garbled_lines)) =
     Inr \<lparr>out_Response = hello_result,
          out_Sends = [hello_event ''Hel'' True, hello_event ''lo'' True,
                       hello_event '' world'' False],
          out_Errlog = [''{oops'']\<rparr>"
  by (simp add: garbled_lines_def hello_unmarshal_def delta_chunk_def content_delta_def
      sample_opt_def initial_state_def zeroResponse_def chunk_eval trim_eval scan_eval
      handle_sse_def finalize_def itoa_0 hello_result_def hello_event_def)

section \<open>The claims\<close>

text \<open>
  C1 fails on the streaming path. The body below is an SSE stream whose only chunk has no
  identifier and carries the content \<open>hi\<close> with finish reason \<open>stop\<close>: the call
  succeeds and returns a response whose identifier is empty.
\<close>

theorem streaming_id_left_empty:
  "complete noid_env sample_cfg ''agent'' sample_req sample_opt =
     Inr \<lparr>out_Response = noid_result, out_Sends = [], out_Errlog = []\<rparr> \<and>
   resp_ID noid_result = []"
  by (simp add: complete_def build_request_def handle_response_def isSSE_def
      noid_env_def sample_cfg_def sample_req_def noid_lines_def noid_unmarshal_def
      delta_chunk_def content_delta_def sample_opt_def initial_state_def zeroResponse_def
      chunk_eval trim_eval scan_eval handle_sse_def finalize_def noid_result_def)



text \<open>
  C2. Merging a tool-call fragment into the accumulator under its position index: a first
  fragment for an index creates the entry with the fragment's identifier, type, function
  name and arguments; a later fragment for the index appends its arguments to the entry
  and changes nothing else; entries under other indices stay as they are. A stream whose
  \<open>data: \<close> lines carry four fragments with indices 0, 1, 0, 1 and then the sentinel
  returns a tool-call list of length two: position 0 holds the first fragment's call with
  the arguments of fragments one and three concatenated, position 1 that of fragments two
  and four. The witness has the arguments \<open>{"a":\<close>, \<open>{"b":\<close>, \<open>1}\<close>, \<open>2}\<close>.
\<close>

theorem toolcall_fragments_merged:
  assumes scan: "Scanner reader = (ls, serr)"
      and data: "filter (prefix ''data: '') ls = l1 # l2 # l3 # l4 # d # rest"
      and sentinel: "is_sentinel d"
      and dec: "decodes um l1 c1" "decodes um l2 c2" "decodes um l3 c3" "decodes um l4 c4"
      and tool: "tool_chunk c1 g1" "tool_chunk c2 g2" "tool_chunk c3 g3" "tool_chunk c4 g4"
      and idxs: "tcd_Index g1 = Some 0" "tcd_Index g2 = Some 1" "tcd_Index g3 = Some 0"
                "tcd_Index g4 = Some 1"
  shows "(map_of acc k = None \<longrightarrow>
            map_of (merge_fragment acc k g) k =
              Some \<lparr>tc_ID = tcd_ID g, tc_Type = tcd_Type g,
                    tc_Function = \<lparr>fn_Name = fn_Name (tcd_Function g),
                                   fn_Arguments = fn_Arguments (tcd_Function g)\<rparr>\<rparr>) \<and>
         (\<forall>e. map_of acc k = Some e \<longrightarrow>
            map_of (merge_fragment acc k g) k =
              Some (e\<lparr>tc_Function := (tc_Function e)\<lparr>fn_Arguments :=
                      fn_Arguments (tc_Function e) @ fn_Arguments (tcd_Function g)\<rparr>\<rparr>)) \<and>
         (\<forall>j. j \<noteq> k \<longrightarrow> map_of (merge_fragment acc k g) j = map_of acc j) \<and>
         st_toolCalls (tool_fragment opt a fin (i, g) st) =
           merge_fragment (st_toolCalls st) (fragment_index i g) g \<and>
         (\<exists>out c m. handle_sse um opt a now reader = Inr out \<and>
            resp_Choices (out_Response out) = [c] \<and> ch_Message c = Some m \<and>
            msg_ToolCalls m = [merged_call g1 g3, merged_call g2 g4])"
proof -
  have A: "map_of acc k = None \<longrightarrow>
            map_of (merge_fragment acc k g) k =
              Some \<lparr>tc_ID = tcd_ID g, tc_Type = tcd_Type g,
                    tc_Function = \<lparr>fn_Name = fn_Name (tcd_Function g),
                                   fn_Arguments = fn_Arguments (tcd_Function g)\<rparr>\<rparr>"
    by (simp add: merge_fragment_lookup merge_entry_def)
  have B: "\<forall>e. map_of acc k = Some e \<longrightarrow>
            map_of (merge_fragment acc k g) k =
              Some (e\<lparr>tc_Function := (tc_Function e)\<lparr>fn_Arguments :=
                      fn_Arguments (tc_Function e) @ fn_Arguments (tcd_Function g)\<rparr>\<rparr>)"
    by (simp add: merge_fragment_lookup merge_entry_def)
  have C: "\<forall>j. j \<noteq> k \<longrightarrow> map_of (merge_fragment acc k g) j = map_of acc j"
    by (simp add: merge_fragment_lookup)
  have D: "st_toolCalls (tool_fragment opt a fin (i, g) st) =
           merge_fragment (st_toolCalls st) (fragment_index i g) g"
    using tool_fragment_effect [of opt a fin "(i, g)" st] by simp
  from tool_chunk_step [OF state_ok_initial tool(1) idxs(1), of opt a now] obtain s1 where
    r1: "process_chunk opt a now initial_state c1 = Inr s1" and ok1: "state_ok s1" and
    t1: "st_toolCalls s1 = merge_fragment (st_toolCalls initial_state) 0 g1"
    by blast
  from tool_chunk_step [OF ok1 tool(2) idxs(2), of opt a now] obtain s2 where
    r2: "process_chunk opt a now s1 c2 = Inr s2" and ok2: "state_ok s2" and
    t2: "st_toolCalls s2 = merge_fragment (st_toolCalls s1) 1 g2"
    by blast
  from tool_chunk_step [OF ok2 tool(3) idxs(3), of opt a now] obtain s3 where
    r3: "process_chunk opt a now s2 c3 = Inr s3" and ok3: "state_ok s3" and
    t3: "st_toolCalls s3 = merge_fragment (st_toolCalls s2) 0 g3"
    by blast
  from tool_chunk_step [OF ok3 tool(4) idxs(4), of opt a now] obtain s4 where
    r4: "process_chunk opt a now s3 c4 = Inr s4" and ok4: "state_ok s4" and
    t4: "st_toolCalls s4 = merge_fragment (st_toolCalls s3) 1 g4"
    by blast
  have acc: "st_toolCalls s4 = [(0, merged_call g1 g3), (1, merged_call g2 g4)]"
    by (simp add: t4 t3 t2 t1 initial_state_def merge_fragment_def merge_entry_def
        merged_call_def)
  have conv: "convert_toolCalls (st_toolCalls s4) = Inr [merged_call g1 g3, merged_call g2 g4]"
    by (simp add: acc convert_toolCalls_def)
  have "stream_lines um opt a now serr initial_state [] ls =
        stream_lines um opt a now serr initial_state [] (l1 # l2 # l3 # l4 # d # rest)"
    by (subst stream_lines_filter) (simp only: data)
  also have "\<dots> = Inr (s4, [])"
    by (simp add: stream_lines_decodes [OF dec(1)] stream_lines_decodes [OF dec(2)]
        stream_lines_decodes [OF dec(3)] stream_lines_decodes [OF dec(4)]
        stream_lines_sentinel [OF sentinel] r1 r2 r3 r4)
  finally have run: "stream_lines um opt a now serr initial_state [] ls = Inr (s4, [])" .
  from finalize_converted [OF ok4 _ conv] acc obtain resp c m where
    fin: "finalize s4 = Inr resp" and
    r: "resp_Choices resp = [c]" "ch_Message c = Some m"
       "msg_ToolCalls m = [merged_call g1 g3, merged_call g2 g4]"
    by auto
  have "handle_sse um opt a now reader =
          Inr \<lparr>out_Response = resp, out_Sends = st_sends s4, out_Errlog = []\<rparr>"
    by (simp add: handle_sse_def scan run fin)
  with r have E: "\<exists>out c m. handle_sse um opt a now reader = Inr out \<and>
            resp_Choices (out_Response out) = [c] \<and> ch_Message c = Some m \<and>
            msg_ToolCalls m = [merged_call g1 g3, merged_call g2 g4]"
    by simp
  from A B C D E show ?thesis by (intro conjI)
qed



theorem toolcall_fragments_merged_witness:
  \<open>Scanner (NewReader (sse_body tools_lines)) = (tools_lines, None) \<and>
   filter (prefix ''data: '') tools_lines =
     [''data: t0a'', ''data: t1a'', ''data: t0b'', ''data: t1b'', ''data: [DONE]''] \<and>
   is_sentinel ''data: [DONE]'' \<and>
   decodes tools_unmarshal ''data: t0a''
     (delta_chunk ''c1'' (tool_delta [fragment 0 ''call_a'' ''f'' ''{"a":'']) None) \<and>
   decodes tools_unmarshal ''data: t1a''
     (delta_chunk ''c1'' (tool_delta [fragment 1 ''call_b'' ''g'' ''{"b":'']) None) \<and>
   decodes tools_unmarshal ''data: t0b''
     (delta_chunk ''c1'' (tool_delta [fragment 0 [] [] ''1}'']) None) \<and>
   decodes tools_unmarshal ''data: t1b''
     (delta_chunk ''c1'' (tool_delta [fragment 1 [] [] ''2}'']) None) \<and>
   tool_chunk (delta_chunk ''c1'' (tool_delta [fragment 0 ''call_a'' ''f'' ''{"a":'']) None)
     (fragment 0 ''call_a'' ''f'' ''{"a":'') \<and>
   tcd_Index (fragment 0 ''call_a'' ''f'' ''{"a":'') = Some 0 \<and>
   tcd_Index (fragment 1 ''call_b'' ''g'' ''{"b":'') = Some 1 \<and>
   tcd_Index (fragment 0 [] [] ''1}'') = Some 0 \<and>
   tcd_Index (fragment 1 [] [] ''2}'') = Some 1 \<and>
   (\<exists>out c m. handle_sse tools_unmarshal sample_opt ''agent'' 7
                 (NewReader (sse_body tools_lines)) = Inr out \<and>
      resp_Choices (out_Response out) = [c] \<and> ch_Message c = Some m \<and>
      length (msg_ToolCalls m) = 2 \<and>
      msg_ToolCalls m =
        [\<lparr>tc_ID = ''call_a'', tc_Type = ''function'',
          tc_Function = \<lparr>fn_Name = ''f'', fn_Arguments = ''{"a":1}''\<rparr>\<rparr>,
         \<lparr>tc_ID = ''call_b'', tc_Type = ''function'',
          tc_Function = \<lparr>fn_Name = ''g'', fn_Arguments = ''{"b":2}''\<rparr>\<rparr>])\<close>
proof -
  let ?g1 = \<open>fragment 0 ''call_a'' ''f'' ''{"a":''\<close>
  let ?g2 = \<open>fragment 1 ''call_b'' ''g'' ''{"b":''\<close>
  let ?g3 = "fragment 0 [] [] ''1}''"
  let ?g4 = "fragment 1 [] [] ''2}''"
  have sc: "Scanner (NewReader (sse_body tools_lines)) = (tools_lines, None)"
    by (simp add: tools_lines_def tools_data_def scan_eval)
  have fl: "filter (prefix ''data: '') tools_lines =
     ''data: t0a'' # ''data: t1a'' # ''data: t0b'' # ''data: t1b'' # ''data: [DONE]'' # []"
    by (simp add: tools_lines_def tools_data_def)
  have sn: "is_sentinel ''data: [DONE]''"
    by (simp add: line_eval trim_eval)
  have d1: "decodes tools_unmarshal ''data: t0a'' (delta_chunk ''c1'' (tool_delta [?g1]) None)"
    and d2: "decodes tools_unmarshal ''data: t1a'' (delta_chunk ''c1'' (tool_delta [?g2]) None)"
    and d3: "decodes tools_unmarshal ''data: t0b'' (delta_chunk ''c1'' (tool_delta [?g3]) None)"
    and d4: "decodes tools_unmarshal ''data: t1b'' (delta_chunk ''c1'' (tool_delta [?g4]) None)"
    by (simp_all add: line_eval trim_eval tools_unmarshal_def)
  have tc: "tool_chunk (delta_chunk cid (tool_delta [g]) None) g" for cid g
    by (simp add: tool_chunk_def delta_chunk_def tool_delta_def)
  have ix: "tcd_Index ?g1 = Some 0" "tcd_Index ?g2 = Some 1" "tcd_Index ?g3 = Some 0"
    "tcd_Index ?g4 = Some 1"
    by (simp_all add: fragment_def)
  have mc: \<open>merged_call ?g1 ?g3 =
          \<lparr>tc_ID = ''call_a'', tc_Type = ''function'',
           tc_Function = \<lparr>fn_Name = ''f'', fn_Arguments = ''{"a":1}''\<rparr>\<rparr>\<close>
       \<open>merged_call ?g2 ?g4 =
          \<lparr>tc_ID = ''call_b'', tc_Type = ''function'',
           tc_Function = \<lparr>fn_Name = ''g'', fn_Arguments = ''{"b":2}''\<rparr>\<rparr>\<close>
    by (simp_all add: merged_call_def fragment_def)
  from toolcall_fragments_merged [OF sc fl sn d1 d2 d3 d4 tc tc tc tc ix, of _ _ _ sample_opt, THEN conjunct2, THEN conjunct2,
      THEN conjunct2, THEN conjunct2, of "''agent''" 7]
  have "\<exists>out c m. handle_sse tools_unmarshal sample_opt ''agent'' 7
                 (NewReader (sse_body tools_lines)) = Inr out \<and>
      resp_Choices (out_Response out) = [c] \<and> ch_Message c = Some m \<and>
      msg_ToolCalls m = [merged_call ?g1 ?g3, merged_call ?g2 ?g4]" .
  then obtain out c m where
    o: "handle_sse tools_unmarshal sample_opt ''agent'' 7 (NewReader (sse_body tools_lines)) = Inr out"
       "resp_Choices (out_Response out) = [c]" "ch_Message c = Some m"
       "msg_ToolCalls m = [merged_call ?g1 ?g3, merged_call ?g2 ?g4]"
    by blast
  from o(4) have len: "length (msg_ToolCalls m) = 2" by simp
  show ?thesis
    apply (intro conjI)
               apply (rule sc)
              apply (simp only: fl)
             apply (rule sn d1 d2 d3 d4 tc ix)+
    apply (rule exI [of _ out], rule exI [of _ c], rule exI [of _ m])
    apply (intro conjI)
        apply (rule o(1) o(2) o(3) len)+
    apply (simp only: o(4) mc)
    done
qed








text \<open>
  C4. With a progress token configured, an SSE stream whose \<open>data: \<close> lines are three
  chunks with one content fragment each, the first chunk carrying a non-empty identifier,
  and then the sentinel, returns a response whose text for choice 0 is the three
  fragments concatenated in arrival order, after exactly three calls of the sink: one
  partial event per fragment, in order, each carrying that fragment alone, with
  has-more set exactly when the chunk had no finish reason; nothing is sent for the
  sentinel. The witness is the stream \<open>Hel\<close>, \<open>lo\<close>, \<open> world\<close>.
\<close>

theorem content_fragments_streamed:
  assumes token: "ProgressToken opt \<noteq> None"
      and scan: "Scanner reader = (ls, serr)"
      and data: "filter (prefix ''data: '') ls = l1 # l2 # l3 # d # rest"
      and sentinel: "is_sentinel d"
      and dec: "decodes um l1 c1" "decodes um l2 c2" "decodes um l3 c3"
      and cont: "content_chunk c1 f1 fr1" "content_chunk c2 f2 fr2" "content_chunk c3 f3 fr3"
      and ident: "chunk_ID c1 \<noteq> []"
  shows "\<exists>out. handle_sse um opt a now reader = Inr out \<and>
           accumulated_text (out_Response out) = Some (f1 @ f2 @ f3) \<and>
           resp_ID (out_Response out) = chunk_ID c1 \<and>
           out_Sends out =
             [fragment_event opt a (chunk_Model c1) (chunk_ID c1) f1 fr1,
              fragment_event opt a (chunk_Model c1) (chunk_ID c1) f2 fr2,
              fragment_event opt a (chunk_Model c1) (chunk_ID c1) f3 fr3] \<and>
           out_Errlog out = []"
proof -
  have i0: "\<not> st_initialized initial_state" "st_sends initial_state = []"
    "st_toolCalls initial_state = []"
    by (simp_all add: initial_state_def)
  from content_chunk_step [OF state_ok_initial cont(1), of opt a now]
  obtain s1 where
    r1: "process_chunk opt a now initial_state c1 = Inr s1" and
    p1: "state_ok s1" "st_initialized s1" "resp_ID (st_resp s1) = chunk_ID c1"
        "resp_Model (st_resp s1) = chunk_Model c1" "st_toolCalls s1 = []"
        "accumulated_text (st_resp s1) = Some f1"
        "st_sends s1 = [fragment_event opt a (chunk_Model c1) (chunk_ID c1) f1 fr1]"
    using token ident by (elim exE conjE) (rule that, simp_all add: header_ID_initial i0)
  have h2: "header_ID s1 c2 = chunk_ID c1"
    using p1 ident by (simp add: header_ID_kept)
  from content_chunk_step [OF p1(1) cont(2), of opt a now]
  obtain s2 where
    r2: "process_chunk opt a now s1 c2 = Inr s2" and
    p2: "state_ok s2" "st_initialized s2" "resp_ID (st_resp s2) = chunk_ID c1"
        "resp_Model (st_resp s2) = chunk_Model c1" "st_toolCalls s2 = []"
        "accumulated_text (st_resp s2) = Some (f1 @ f2)"
        "st_sends s2 = [fragment_event opt a (chunk_Model c1) (chunk_ID c1) f1 fr1,
                        fragment_event opt a (chunk_Model c1) (chunk_ID c1) f2 fr2]"
    using token ident by (elim exE conjE) (rule that, simp_all add: h2 p1)
  have h3: "header_ID s2 c3 = chunk_ID c1"
    using p2 ident by (simp add: header_ID_kept)
  from content_chunk_step [OF p2(1) cont(3), of opt a now]
  obtain s3 where
    r3: "process_chunk opt a now s2 c3 = Inr s3" and
    p3: "state_ok s3" "st_initialized s3" "resp_ID (st_resp s3) = chunk_ID c1"
        "resp_Model (st_resp s3) = chunk_Model c1" "st_toolCalls s3 = []"
        "accumulated_text (st_resp s3) = Some (f1 @ f2 @ f3)"
        "st_sends s3 = [fragment_event opt a (chunk_Model c1) (chunk_ID c1) f1 fr1,
                        fragment_event opt a (chunk_Model c1) (chunk_ID c1) f2 fr2,
                        fragment_event opt a (chunk_Model c1) (chunk_ID c1) f3 fr3]"
    using token ident by (elim exE conjE) (rule that, simp_all add: h3 p2)
  have "stream_lines um opt a now serr initial_state [] ls =
        stream_lines um opt a now serr initial_state [] (l1 # l2 # l3 # d # rest)"
    by (subst stream_lines_filter) (simp only: data)
  also have "\<dots> = Inr (s3, [])"
    by (simp add: stream_lines_decodes [OF dec(1)] stream_lines_decodes [OF dec(2)]
        stream_lines_decodes [OF dec(3)] stream_lines_sentinel [OF sentinel] r1 r2 r3)
  finally have run: "stream_lines um opt a now serr initial_state [] ls = Inr (s3, [])" .
  have fin: "finalize s3 = Inr (st_resp s3)"
    by (simp add: finalize_def p3)
  have "handle_sse um opt a now reader =
          Inr \<lparr>out_Response = st_resp s3, out_Sends = st_sends s3, out_Errlog = []\<rparr>"
    by (simp add: handle_sse_def scan run fin)
  then show ?thesis using p3 by simp
qed



theorem content_fragments_streamed_witness:
  "ProgressToken sample_opt \<noteq> None \<and>
   Scanner (NewReader (sse_body hello_lines)) = (hello_lines, None) \<and>
   filter (prefix ''data: '') hello_lines =
     [''data: h1'', ''data: h2'', ''data: h3'', ''data: [DONE]''] \<and>
   is_sentinel ''data: [DONE]'' \<and>
   decodes hello_unmarshal ''data: h1'' (delta_chunk ''c1'' (content_delta ''Hel'') None) \<and>
   decodes hello_unmarshal ''data: h2'' (delta_chunk ''c1'' (content_delta ''lo'') None) \<and>
   decodes hello_unmarshal ''data: h3''
     (delta_chunk ''c1'' (content_delta '' world'') (Some ''stop'')) \<and>
   content_chunk (delta_chunk ''c1'' (content_delta ''Hel'') None) ''Hel'' None \<and>
   content_chunk (delta_chunk ''c1'' (content_delta ''lo'') None) ''lo'' None \<and>
   content_chunk (delta_chunk ''c1'' (content_delta '' world'') (Some ''stop'')) '' world''
     (Some ''stop'') \<and>
   (\<exists>out. handle_sse hello_unmarshal sample_opt ''agent'' 7 (NewReader (sse_body hello_lines))
           = Inr out \<and>
      accumulated_text (out_Response out) = Some ''Hello world'' \<and>
      out_Sends out =
        [fragment_event sample_opt ''agent'' ''gpt'' ''c1'' ''Hel'' None,
         fragment_event sample_opt ''agent'' ''gpt'' ''c1'' ''lo'' None,
         fragment_event sample_opt ''agent'' ''gpt'' ''c1'' '' world'' (Some ''stop'')] \<and>
      out_Sends out = [hello_event ''Hel'' True, hello_event ''lo'' True,
                       hello_event '' world'' False])"
proof -
  have tok: "ProgressToken sample_opt \<noteq> None"
    by (simp add: sample_opt_def)
  have sc: "Scanner (NewReader (sse_body hello_lines)) = (hello_lines, None)"
    by (simp add: hello_lines_def scan_eval)
  have fl: "filter (prefix ''data: '') hello_lines =
     ''data: h1'' # ''data: h2'' # ''data: h3'' # ''data: [DONE]'' # []"
    by (simp add: hello_lines_def)
  have sn: "is_sentinel ''data: [DONE]''"
    by (simp add: line_eval trim_eval)
  have d1: "decodes hello_unmarshal ''data: h1'' (delta_chunk ''c1'' (content_delta ''Hel'') None)"
    and d2: "decodes hello_unmarshal ''data: h2'' (delta_chunk ''c1'' (content_delta ''lo'') None)"
    and d3: "decodes hello_unmarshal ''data: h3''
               (delta_chunk ''c1'' (content_delta '' world'') (Some ''stop''))"
    by (simp_all add: line_eval trim_eval hello_unmarshal_def)
  have c1: "content_chunk (delta_chunk ''c1'' (content_delta ''Hel'') None) ''Hel'' None"
    and c2: "content_chunk (delta_chunk ''c1'' (content_delta ''lo'') None) ''lo'' None"
    and c3: "content_chunk (delta_chunk ''c1'' (content_delta '' world'') (Some ''stop''))
               '' world'' (Some ''stop'')"
    by (simp_all add: content_chunk_def delta_chunk_def content_delta_def)
  have idn: "chunk_ID (delta_chunk ''c1'' (content_delta ''Hel'') None) \<noteq> []"
    by (simp add: delta_chunk_def)
  from content_fragments_streamed [OF tok sc fl sn d1 d2 d3 c1 c2 c3 idn, of "''agent''" 7]
  obtain out where
    o: "handle_sse hello_unmarshal sample_opt ''agent'' 7 (NewReader (sse_body hello_lines)) = Inr out"
       "accumulated_text (out_Response out) = Some ''Hello world''"
       "out_Sends out =
        [fragment_event sample_opt ''agent'' ''gpt'' ''c1'' ''Hel'' None,
         fragment_event sample_opt ''agent'' ''gpt'' ''c1'' ''lo'' None,
         fragment_event sample_opt ''agent'' ''gpt'' ''c1'' '' world'' (Some ''stop'')]"
    by (auto simp: delta_chunk_def)
  have "out_Sends out = [hello_event ''Hel'' True, hello_event ''lo'' True,
                       hello_event '' world'' False]"
    using o(1) [unfolded hello_run sum.inject, symmetric] by simp
  with tok sc fl sn d1 d2 d3 c1 c2 c3 o show ?thesis by simp
qed

text \<open>
  C5. At the end of a streaming run, when the position indices seen for tool-call
  fragments are exactly \<open>0, ..., n - 1\<close>, the conversion of the accumulator yields a
  list of length \<open>n\<close> whose entry at position \<open>k\<close> is the tool call accumulated under
  key \<open>k\<close>; no write is out of range, so neither the conversion nor the finalization
  around it takes the panic branch, and for \<open>n > 0\<close> the list becomes the tool-call list
  of the response's only choice.
\<close>

theorem finalize_contiguous:
  assumes run: "stream_lines um opt a now serr initial_state [] ls = Inr (st, lg)"
      and keys: "fst ` set (st_toolCalls st) = int ` {0..<n}"
  shows "\<exists>slice. convert_toolCalls (st_toolCalls st) = Inr slice \<and> length slice = n \<and>
           (\<forall>k<n. map_of (st_toolCalls st) (int k) = Some (slice ! k)) \<and>
           (\<exists>resp. finalize st = Inr resp \<and>
              (0 < n \<longrightarrow> map (\<lambda>c. map_option msg_ToolCalls (ch_Message c)) (resp_Choices resp)
                          = [Some slice]))"
proof -
  let ?tcs = "st_toolCalls st"
  have ok: "state_ok st"
    using stream_lines_ok [OF run state_ok_initial] .
  then have d: "distinct (map fst ?tcs)" by (simp add: state_ok_def)
  have "length ?tcs = card (fst ` set ?tcs)"
    using distinct_card [OF d] by simp
  also have "\<dots> = n" by (simp add: keys card_image)
  finally have len: "length ?tcs = n" .
  have inrange: "\<forall>p\<in>set ?tcs. 0 \<le> fst p \<and> fst p < int (length (replicate n zeroToolCall))"
  proof
    fix p assume "p \<in> set ?tcs"
    then have "fst p \<in> int ` {0..<n}" using keys by blast
    then show "0 \<le> fst p \<and> fst p < int (length (replicate n zeroToolCall))" by auto
  qed
  define slice where
    "slice = map (\<lambda>k. case map_of ?tcs (int k) of Some v \<Rightarrow> v | None \<Rightarrow> replicate n zeroToolCall ! k)
               [0..<n]"
  have conv: "convert_toolCalls ?tcs = Inr slice"
    using convert_loop_char [OF d, of "replicate n zeroToolCall"] inrange
    by (simp add: convert_toolCalls_def len slice_def)
  have cells: "map_of ?tcs (int k) = Some (slice ! k)" if "k < n" for k
  proof -
    from that have "int k \<in> fst ` set ?tcs" by (simp add: keys)
    then obtain v where "map_of ?tcs (int k) = Some v"
      by (metis domD dom_map_of_conv_image_fst)
    with that show ?thesis by (simp add: slice_def)
  qed
  have fin: "\<exists>resp. finalize st = Inr resp \<and>
              (0 < n \<longrightarrow> map (\<lambda>c. map_option msg_ToolCalls (ch_Message c)) (resp_Choices resp)
                          = [Some slice])"
  proof (cases "0 < n")
    case False
    then show ?thesis using len by (simp add: finalize_def)
  next
    case True
    with len have ne: "?tcs \<noteq> []" by auto
    with ok have "shape (st_resp st)" by (auto simp: state_ok_def split: if_splits)
    then obtain c m where "resp_Choices (st_resp st) = [c]" and "ch_Message c = Some m"
      by (auto dest: shapeD)
    with True len conv show ?thesis
      by (simp add: finalize_def choice_at_def message_of_def set_choice_def)
  qed
  from conv cells fin show ?thesis by (auto simp: slice_def)
qed


theorem finalize_contiguous_witness:
  "\<exists>st. stream_lines tools_unmarshal sample_opt ''agent'' 7 None initial_state [] tools_lines
          = Inr (st, []) \<and>
        fst ` set (st_toolCalls st) = int ` {0..<2} \<and>
        (\<exists>slice. convert_toolCalls (st_toolCalls st) = Inr slice \<and> length slice = 2 \<and>
           (\<forall>k<2. map_of (st_toolCalls st) (int k) = Some (slice ! k)) \<and>
           (\<exists>resp. finalize st = Inr resp \<and>
              map (\<lambda>c. map_option msg_ToolCalls (ch_Message c)) (resp_Choices resp)
                = [Some slice]))"
proof -
  from tools_run obtain st where
    run: "stream_lines tools_unmarshal sample_opt ''agent'' 7 None initial_state [] tools_lines
            = Inr (st, [])" and
    acc: "map fst (st_toolCalls st) = [0, 1]"
    by auto
  have "fst ` set (st_toolCalls st) = set (map fst (st_toolCalls st))" by simp
  also have "\<dots> = int ` {0..<2}" unfolding acc by auto
  finally have keys: "fst ` set (st_toolCalls st) = int ` {0..<2}" .
  from finalize_contiguous [OF run keys] run keys show ?thesis by auto
qed

text \<open>
  C6. A \<open>data: \<close> line whose trimmed payload is neither the sentinel nor decodable is
  logged and skipped, and the loop goes on with the next line in the same state; a stream
  with such a line anywhere in it ends as the stream without the line does, in the same
  error or in the same response with the same calls of the sink.
\<close>

theorem undecodable_line_skipped:
  assumes bad: "undecodable um l"
      and scan: "Scanner reader = (xs @ l # ys, serr)"
      and scan': "Scanner reader' = (xs @ ys, serr)"
  shows "stream_lines um opt a now serr st lg (l # ys) =
           stream_lines um opt a now serr st (lg @ [payload l]) ys \<and>
         map_sum (\<lambda>e. e) fst (stream_lines um opt a now serr st lg (xs @ l # ys)) =
           map_sum (\<lambda>e. e) fst (stream_lines um opt a now serr st lg (xs @ ys)) \<and>
         map_sum (\<lambda>e. e) (\<lambda>out. (out_Response out, out_Sends out))
             (handle_sse um opt a now reader) =
           map_sum (\<lambda>e. e) (\<lambda>out. (out_Response out, out_Sends out))
             (handle_sse um opt a now reader')"
proof -
  have 1: "stream_lines um opt a now serr st lg (l # ys) =
           stream_lines um opt a now serr st (lg @ [payload l]) ys"
    using bad by (rule stream_lines_undecodable)
  have 2: "map_sum (\<lambda>e. e) fst (stream_lines um opt a now serr s g (xs @ l # ys)) =
           map_sum (\<lambda>e. e) fst (stream_lines um opt a now serr s g (xs @ ys))" for s g
    using bad by (rule stream_lines_drop_undecodable)
  have 3: "map_sum (\<lambda>e. e) (\<lambda>out. (out_Response out, out_Sends out))
             (handle_sse um opt a now reader) =
           map_sum (\<lambda>e. e) (\<lambda>out. (out_Response out, out_Sends out))
             (handle_sse um opt a now reader')"
    by (simp only: handle_sse_view [OF scan] handle_sse_view [OF scan'] 2)
  from 1 2 3 show ?thesis by blast
qed



theorem undecodable_line_skipped_witness:
  "undecodable hello_unmarshal ''data: {oops'' \<and>
   Scanner (NewReader (sse_body garbled_lines)) =
     ([''data: h1'', []] @ ''data: {oops'' # [''data: h2'', [], ''data: h3'', [], ''data: [DONE]''],
      None) \<and>
   Scanner (NewReader (sse_body hello_lines)) =
     ([''data: h1'', []] @ [''data: h2'', [], ''data: h3'', [], ''data: [DONE]''], None) \<and>
   stream_lines hello_unmarshal sample_opt ''agent'' 7 None initial_state []
       (''data: {oops'' # [''data: h2'', [], ''data: h3'', [], ''data: [DONE]'']) =
     stream_lines hello_unmarshal sample_opt ''agent'' 7 None initial_state
       ([] @ [payload ''data: {oops''])  [''data: h2'', [], ''data: h3'', [], ''data: [DONE]''] \<and>
   map_sum (\<lambda>e. e) (\<lambda>out. (out_Response out, out_Sends out))
       (handle_sse hello_unmarshal sample_opt ''agent'' 7 (NewReader (sse_body garbled_lines))) =
     map_sum (\<lambda>e. e) (\<lambda>out. (out_Response out, out_Sends out))
       (handle_sse hello_unmarshal sample_opt ''agent'' 7 (NewReader (sse_body hello_lines))) \<and>
   map_sum (\<lambda>e. e) out_Errlog
       (handle_sse hello_unmarshal sample_opt ''agent'' 7 (NewReader (sse_body garbled_lines))) =
     Inr [''{oops'']"
proof -
  have bad: "undecodable hello_unmarshal ''data: {oops''"
    by (simp add: line_eval trim_eval hello_unmarshal_def)
  have sc: "Scanner (NewReader (sse_body garbled_lines)) =
     ([''data: h1'', []] @ ''data: {oops'' # [''data: h2'', [], ''data: h3'', [], ''data: [DONE]''],
      None)"
    by (simp add: garbled_lines_def scan_eval)
  have sc': "Scanner (NewReader (sse_body hello_lines)) =
     ([''data: h1'', []] @ [''data: h2'', [], ''data: h3'', [], ''data: [DONE]''], None)"
    by (simp add: hello_lines_def scan_eval)
  have lg: "map_sum (\<lambda>e. e) out_Errlog
       (handle_sse hello_unmarshal sample_opt ''agent'' 7 (NewReader (sse_body garbled_lines))) =
     Inr [''{oops'']"
    by (simp add: garbled_run)
  from undecodable_line_skipped [OF bad sc sc', of sample_opt "''agent''" 7 initial_state "[]"]
    bad sc sc' lg
  show ?thesis by blast
qed














text \<open>
  C9. Whatever the request and the caller's options, the request that \<open>complete\<close> hands
  to the transport has \<open>stream\<close> set and \<open>stream_options.include_usage\<close> set, its other
  fields being the translator's; \<open>complete\<close> is the transport on that request, followed
  by the handling of the response.
\<close>

theorem stream_forced:
  assumes "build_request env cfg req = Inr h"
  shows "req_Stream (hr_Body h) \<and>
         req_StreamOptions (hr_Body h) = Some \<lparr>IncludeUsage = True\<rparr> \<and>
         req_Fields (hr_Body h) = req_Fields req \<and>
         complete env cfg a req opt = bindE (env_Do env h) (handle_response env opt a)"
proof -
  from assms have h: "hr_Body h = req\<lparr>req_Stream := True,
                                      req_StreamOptions := Some \<lparr>IncludeUsage = True\<rparr>\<rparr>"
    by (auto simp: build_request_def Let_def split: option.splits)
  from assms show ?thesis by (simp add: h complete_def)
qed

theorem stream_forced_witness:
  "build_request sample_env sample_cfg sample_req =
     Inr \<lparr>hr_Method = ''POST'', hr_URL = ''https://api.openai.com/v1/chat/completions'',
          hr_Header = Headers sample_cfg,
          hr_Body = \<lparr>req_Stream = True, req_StreamOptions = Some \<lparr>IncludeUsage = True\<rparr>,
                     req_Fields = [(''model'', ''gpt'')]\<rparr>\<rparr> \<and>
   complete sample_env sample_cfg ''agent'' sample_req sample_opt =
     handle_response sample_env sample_opt ''agent''
       \<lparr>StatusCode = 200, Status = ''200 OK'', Body = sse_body hello_lines\<rparr>"
proof -
  have b: "build_request sample_env sample_cfg sample_req =
     Inr \<lparr>hr_Method = ''POST'', hr_URL = ''https://api.openai.com/v1/chat/completions'',
          hr_Header = Headers sample_cfg,
          hr_Body = \<lparr>req_Stream = True, req_StreamOptions = Some \<lparr>IncludeUsage = True\<rparr>,
                     req_Fields = [(''model'', ''gpt'')]\<rparr>\<rparr>"
    by (simp add: build_request_def sample_env_def sample_cfg_def sample_req_def)
  from stream_forced [OF b, of "''agent''" sample_opt] b show ?thesis
    by (simp add: sample_env_def)
qed


text \<open>
  C10. In the ordinary-delta branch, while the response identifier is empty a delta's
  content fragment is appended to the text and its tool-call fragments are merged into the
  accumulator, but no call of the sink is made. Such a fragment is not reported later
  either: when a first chunk without identifier carries \<open>f1\<close> and a second chunk with an
  identifier carries \<open>f2\<close>, the text ends as \<open>f1 @ f2\<close> and the sink has received the
  one event for \<open>f2\<close>.
\<close>

theorem no_progress_without_id:
  assumes ok: "state_ok st" and init: "st_initialized st"
      and empty: "resp_ID (st_resp st) = []"
      and idx: "sc_Index ch = 0" and dl: "sc_Delta ch = Some dlt"
      and token: "ProgressToken opt \<noteq> None"
      and scan: "Scanner reader = (ls, serr)"
      and data: "filter (prefix ''data: '') ls = l1 # l2 # d # rest"
      and sentinel: "is_sentinel d"
      and dec: "decodes um l1 c1" "decodes um l2 c2"
      and cont: "content_chunk c1 f1 fr1" "content_chunk c2 f2 fr2"
      and ident: "chunk_ID c1 = []" "chunk_ID c2 \<noteq> []"
  shows "(\<exists>st'. process_choice opt a now st ch = Inr st' \<and> st_sends st' = st_sends st \<and>
            accumulated_text (st_resp st') =
              (case d_Content dlt of
                 None \<Rightarrow> accumulated_text (st_resp st)
               | Some f \<Rightarrow> Some ((case accumulated_text (st_resp st) of None \<Rightarrow> [] | Some t \<Rightarrow> t) @ f)) \<and>
            st_toolCalls st' = merge_all (st_toolCalls st) (d_ToolCalls dlt)) \<and>
         (\<exists>out. handle_sse um opt a now reader = Inr out \<and>
            accumulated_text (out_Response out) = Some (f1 @ f2) \<and>
            resp_ID (out_Response out) = chunk_ID c2 \<and>
            out_Sends out = [fragment_event opt a (chunk_Model c1) (chunk_ID c2) f2 fr2])"
proof -
  from normal_delta_step [OF ok init idx, of opt a dlt] obtain st' where
    run: "normal_delta opt a st ch dlt = Inr st'" and
    tx: "accumulated_text (st_resp st') =
              (case d_Content dlt of
                 None \<Rightarrow> accumulated_text (st_resp st)
               | Some f \<Rightarrow> Some ((case accumulated_text (st_resp st) of None \<Rightarrow> [] | Some t \<Rightarrow> t) @ f))" and
    tc: "st_toolCalls st' = merge_all (st_toolCalls st) (d_ToolCalls dlt)" and
    quiet: "resp_ID (st_resp st) = [] \<or> ProgressToken opt = None \<longrightarrow> st_sends st' = st_sends st"
    by (elim exE conjE) (rule that, assumption+)
  from quiet empty have sn: "st_sends st' = st_sends st" by simp
  have pc: "process_choice opt a now st ch = Inr st'"
    by (simp only: process_choice_delta [OF ok init idx dl] run)
  have A: "\<exists>st'. process_choice opt a now st ch = Inr st' \<and> st_sends st' = st_sends st \<and>
            accumulated_text (st_resp st') =
              (case d_Content dlt of
                 None \<Rightarrow> accumulated_text (st_resp st)
               | Some f \<Rightarrow> Some ((case accumulated_text (st_resp st) of None \<Rightarrow> [] | Some t \<Rightarrow> t) @ f)) \<and>
            st_toolCalls st' = merge_all (st_toolCalls st) (d_ToolCalls dlt)"
    by (rule exI [of _ st'], intro conjI) (rule pc sn tx tc)+
  have i0: "\<not> st_initialized initial_state" "st_sends initial_state = []"
    "st_toolCalls initial_state = []"
    by (simp_all add: initial_state_def)
  from content_chunk_step [OF state_ok_initial cont(1), of opt a now]
  obtain s1 where
    r1: "process_chunk opt a now initial_state c1 = Inr s1" and
    p1: "state_ok s1" "st_initialized s1" "resp_ID (st_resp s1) = []"
        "resp_Model (st_resp s1) = chunk_Model c1" "st_toolCalls s1 = []"
        "accumulated_text (st_resp s1) = Some f1" "st_sends s1 = []"
    using ident by (elim exE conjE) (rule that, simp_all add: header_ID_initial i0)
  have h2: "header_ID s1 c2 = chunk_ID c2"
    using p1 by (simp add: header_ID_def)
  from content_chunk_step [OF p1(1) cont(2), of opt a now]
  obtain s2 where
    r2: "process_chunk opt a now s1 c2 = Inr s2" and
    p2: "resp_ID (st_resp s2) = chunk_ID c2" "st_toolCalls s2 = []"
        "accumulated_text (st_resp s2) = Some (f1 @ f2)"
        "st_sends s2 = [fragment_event opt a (chunk_Model c1) (chunk_ID c2) f2 fr2]"
    using token ident by (elim exE conjE) (rule that, simp_all add: h2 p1)
  have "stream_lines um opt a now serr initial_state [] ls =
        stream_lines um opt a now serr initial_state [] (l1 # l2 # d # rest)"
    by (subst stream_lines_filter) (simp only: data)
  also have "\<dots> = Inr (s2, [])"
    by (simp add: stream_lines_decodes [OF dec(1)] stream_lines_decodes [OF dec(2)]
        stream_lines_sentinel [OF sentinel] r1 r2)
  finally have run2: "stream_lines um opt a now serr initial_state [] ls = Inr (s2, [])" .
  have fin: "finalize s2 = Inr (st_resp s2)"
    by (simp add: finalize_def p2)
  have "handle_sse um opt a now reader =
          Inr \<lparr>out_Response = st_resp s2, out_Sends = st_sends s2, out_Errlog = []\<rparr>"
    by (simp add: handle_sse_def scan run2 fin)
  then have B: "\<exists>out. handle_sse um opt a now reader = Inr out \<and>
            accumulated_text (out_Response out) = Some (f1 @ f2) \<and>
            resp_ID (out_Response out) = chunk_ID c2 \<and>
            out_Sends out = [fragment_event opt a (chunk_Model c1) (chunk_ID c2) f2 fr2]"
    using p2 by simp
  from A B show ?thesis by (rule conjI)
qed



theorem no_progress_without_id_witness:
  "state_ok noid_state \<and> st_initialized noid_state \<and> resp_ID (st_resp noid_state) = [] \<and>
   sc_Index mixed_choice = 0 \<and> ProgressToken sample_opt \<noteq> None \<and>
   Scanner (NewReader (sse_body late_lines)) = (late_lines, None) \<and>
   filter (prefix ''data: '') late_lines = [''data: n1'', ''data: n2'', ''data: [DONE]''] \<and>
   is_sentinel ''data: [DONE]'' \<and>
   decodes late_unmarshal ''data: n1'' (delta_chunk [] (content_delta ''Hel'') None) \<and>
   decodes late_unmarshal ''data: n2'' (delta_chunk ''c9'' (content_delta ''lo'') (Some ''stop'')) \<and>
   (\<exists>st'. process_choice sample_opt ''agent'' 7 noid_state mixed_choice = Inr st' \<and>
      st_sends st' = [] \<and> accumulated_text (st_resp st') = Some ''lo'' \<and>
      map fst (st_toolCalls st') = [0]) \<and>
   (\<exists>out. handle_sse late_unmarshal sample_opt ''agent'' 7 (NewReader (sse_body late_lines))
           = Inr out \<and>
      accumulated_text (out_Response out) = Some ''Hello'' \<and>
      resp_ID (out_Response out) = ''c9'' \<and>
      out_Sends out = [fragment_event sample_opt ''agent'' ''gpt'' ''c9'' ''lo'' (Some ''stop'')])"
proof -
  have ok: "state_ok noid_state" and init: "st_initialized noid_state"
    and empty: "resp_ID (st_resp noid_state) = []"
    by (simp_all add: noid_state_def state_ok_def shape_def init_response_def delta_chunk_def)
  have idx: "sc_Index mixed_choice = 0"
    and dl: \<open>sc_Delta mixed_choice =
               Some \<lparr>d_Role = [], d_Content = Some ''lo'',
                     d_ToolCalls = [fragment 0 ''call_a'' ''f'' ''{"a":''],
                     d_Refusal = None\<rparr>\<close>
    by (simp_all add: mixed_choice_def)
  have tok: "ProgressToken sample_opt \<noteq> None"
    by (simp add: sample_opt_def)
  have sc: "Scanner (NewReader (sse_body late_lines)) = (late_lines, None)"
    by (simp add: late_lines_def scan_eval)
  have fl: "filter (prefix ''data: '') late_lines =
     ''data: n1'' # ''data: n2'' # ''data: [DONE]'' # []"
    by (simp add: late_lines_def)
  have sn: "is_sentinel ''data: [DONE]''"
    by (simp add: line_eval trim_eval)
  have d1: "decodes late_unmarshal ''data: n1'' (delta_chunk [] (content_delta ''Hel'') None)"
    and d2: "decodes late_unmarshal ''data: n2''
               (delta_chunk ''c9'' (content_delta ''lo'') (Some ''stop''))"
    by (simp_all add: line_eval trim_eval late_unmarshal_def)
  have c1: "content_chunk (delta_chunk [] (content_delta ''Hel'') None) ''Hel'' None"
    and c2: "content_chunk (delta_chunk ''c9'' (content_delta ''lo'') (Some ''stop'')) ''lo''
               (Some ''stop'')"
    by (simp_all add: content_chunk_def delta_chunk_def content_delta_def)
  have i1: "chunk_ID (delta_chunk [] (content_delta ''Hel'') None) = []"
    and i2: "chunk_ID (delta_chunk ''c9'' (content_delta ''lo'') (Some ''stop'')) \<noteq> []"
    by (simp_all add: delta_chunk_def)
  note inst = no_progress_without_id [OF ok init empty idx dl tok sc fl sn d1 d2 c1 c2 i1 i2,
      of "''agent''" 7]
  from inst [THEN conjunct1] obtain st' where
    a: "process_choice sample_opt ''agent'' 7 noid_state mixed_choice = Inr st'"
       "st_sends st' = st_sends noid_state"
       "accumulated_text (st_resp st') = Some ([] @ ''lo'')"
       "map fst (st_toolCalls st') = [0]"
    by (auto simp: noid_state_def init_response_def accumulated_text_def merge_all_def
        merge_fragment_def fragment_index_def fragment_def)
  from inst [THEN conjunct2] obtain out where
    b: "handle_sse late_unmarshal sample_opt ''agent'' 7 (NewReader (sse_body late_lines)) = Inr out"
       "accumulated_text (out_Response out) = Some ''Hello''"
       "resp_ID (out_Response out) = ''c9''"
       "out_Sends out = [fragment_event sample_opt ''agent'' ''gpt'' ''c9'' ''lo'' (Some ''stop'')]"
    by (auto simp: delta_chunk_def)
  from a have a': "\<exists>st'. process_choice sample_opt ''agent'' 7 noid_state mixed_choice = Inr st' \<and>
      st_sends st' = [] \<and> accumulated_text (st_resp st') = Some ''lo'' \<and>
      map fst (st_toolCalls st') = [0]"
    by (auto simp: noid_state_def)
  from b have b': "\<exists>out. handle_sse late_unmarshal sample_opt ''agent'' 7 (NewReader (sse_body late_lines))
           = Inr out \<and>
      accumulated_text (out_Response out) = Some ''Hello'' \<and>
      resp_ID (out_Response out) = ''c9'' \<and>
      out_Sends out = [fragment_event sample_opt ''agent'' ''gpt'' ''c9'' ''lo'' (Some ''stop'')]"
    by blast
  show ?thesis
    by (intro conjI) (rule ok init empty idx tok sc sn d1 d2 a' b' | simp only: fl)+
qed


end
